theory Spec2Isabelle
  imports Complex_Main "HOL-Library.Word"
begin

section \<open>The TI scape segmentation dataset loader (tiscapes\_plus.py)\<close>

text \<open>
  A shallow embedding of \<^verbatim>\<open>torchvision/edgeailite/xvision/datasets/tiscapes_plus.py\<close>.
  Python integers are \<^typ>\<open>int\<close>, numpy \<^verbatim>\<open>uint8\<close> values are \<^typ>\<open>8 word\<close>, a raised
  exception is the \<open>Inl\<close> branch of a sum. The libraries the file calls (pycocotools, PIL,
  the colour palette of \<^verbatim>\<open>xnn.utils\<close>, \<^verbatim>\<open>dataset_split\<close>, \<^verbatim>\<open>json\<close>, \<^verbatim>\<open>random\<close>) are
  parameters; where one of them raises, the parameter yields \<open>None\<close> and the model reports
  \<open>LibraryError\<close>, so that an \<open>AssertionError\<close> is always one of this file's own.
\<close>

subsection \<open>Exceptions and Python containers\<close>

datatype error =
    AssertionError string
  | KeyError
  | IndexError
  | ValueError
  | TypeError
  | OSError
  | LibraryError

type_synonym u8 = "8 word"

text \<open>\<^verbatim>\<open>range(1, num_classes+1)\<close>: a sequence of integers, empty when \<open>num_classes < 1\<close>.\<close>

definition py_range :: "int \<Rightarrow> int \<Rightarrow> int list" where
  "py_range a b = [a..b - 1]"

text \<open>\<^verbatim>\<open>seq.index(v)\<close>: the first position of \<open>v\<close>, \<^verbatim>\<open>ValueError\<close> when absent.\<close>

fun py_index :: "int list \<Rightarrow> int \<Rightarrow> error + int" where
  "py_index [] v = Inl ValueError"
| "py_index (x # xs) v =
     (if x = v then Inr 0
      else case py_index xs v of Inl e \<Rightarrow> Inl e | Inr i \<Rightarrow> Inr (i + 1))"

text \<open>\<^verbatim>\<open>xs[i]\<close> with Python's negative indices; \<^verbatim>\<open>IndexError\<close> out of range.\<close>

definition py_get :: "'a list \<Rightarrow> int \<Rightarrow> error + 'a" where
  "py_get xs i =
     (if 0 \<le> i \<and> i < int (length xs) then Inr (xs ! nat i)
      else if i < 0 \<and> - int (length xs) \<le> i then Inr (xs ! nat (int (length xs) + i))
      else Inl IndexError)"

subsection \<open>Annotation records and the annotation index\<close>

text \<open>
  An annotation dictionary of the COCO file: the keys the loader reads. The polygon
  segmentation is opaque to the loader (it is only handed to the rasteriser), hence the
  type parameter. The area is the pixel count of the data model.
\<close>

record 'seg annotation =
  category_id :: int
  segmentation :: 'seg
  area :: int

text \<open>
  The \<^verbatim>\<open>COCO\<close> object as far as the loader uses it: \<open>getCatIds()\<close>, \<open>getImgIds()\<close>, the annotations
  \<open>loadAnns(getAnnIds(imgIds=i, iscrowd=None))\<close> of an image id, and the \<open>imgs\<close> dictionary
  (image id to file name).
\<close>

record 'seg coco =
  getCatIds :: "int list"
  getImgIds :: "int list"
  annsOf :: "int \<Rightarrow> 'seg annotation list"
  coco_imgs :: "(int \<times> string) list"

subsection \<open>Validity filter\<close>

text \<open>\<^verbatim>\<open>_has_valid_annotation\<close> (lines 86-91).\<close>

definition has_valid_annotation :: "'seg annotation list \<Rightarrow> bool" where
  "has_valid_annotation anno =
     (if length anno = 0 then False
      else sum_list (map area anno) > 1000)"

text \<open>
  \<^verbatim>\<open>_remove_images_without_annotations\<close> (lines 73-84). The category filter is guarded by
  \<^verbatim>\<open>if self.categories:\<close>, the truth value of a range: it is skipped for an empty range.
\<close>

definition filtered_for_validity :: "int list \<Rightarrow> 'seg annotation list \<Rightarrow> 'seg annotation list" where
  "filtered_for_validity cats anno =
     (if cats \<noteq> [] then filter (\<lambda>obj. category_id obj \<in> set cats) anno
      else anno)"

fun remove_images_loop ::
  "int list \<Rightarrow> 'seg coco \<Rightarrow> int list \<Rightarrow> int list \<Rightarrow> int list" where
  "remove_images_loop cats ds ids [] = ids"
| "remove_images_loop cats ds ids (img_id # rest) =
     (let anno = filtered_for_validity cats (annsOf ds img_id)
      in remove_images_loop cats ds
           (if has_valid_annotation anno then ids @ [img_id] else ids) rest)"

definition remove_images_without_annotations ::
  "int list \<Rightarrow> 'seg coco \<Rightarrow> int list \<Rightarrow> int list" where
  "remove_images_without_annotations cats ds ids0 =
     remove_images_loop cats ds [] ids0"

subsection \<open>Category filter and remap\<close>

text \<open>\<^verbatim>\<open>self.categories.index(obj["category_id"]) + 1\<close> (line 100).\<close>

definition remap_category :: "int list \<Rightarrow> int \<Rightarrow> error + int" where
  "remap_category cats c =
     (case py_index cats c of Inl e \<Rightarrow> Inl e | Inr i \<Rightarrow> Inr (i + 1))"

fun remap_all :: "int list \<Rightarrow> 'seg annotation list \<Rightarrow> error + 'seg annotation list" where
  "remap_all cats [] = Inr []"
| "remap_all cats (obj # rest) =
     (case remap_category cats (category_id obj) of
        Inl e \<Rightarrow> Inl e
      | Inr c \<Rightarrow>
          (case remap_all cats rest of
             Inl e \<Rightarrow> Inl e
           | Inr rest' \<Rightarrow> Inr (obj\<lparr>category_id := c\<rparr> # rest')))"

text \<open>\<^verbatim>\<open>_filter_and_remap_categories\<close> (lines 93-102); the image is passed through.\<close>

definition filter_and_remap_categories ::
  "int list \<Rightarrow> 'img \<Rightarrow> 'seg annotation list \<Rightarrow> bool \<Rightarrow> error + ('img \<times> 'seg annotation list)" where
  "filter_and_remap_categories cats img anno remap =
     (let anno = filter (\<lambda>obj. category_id obj \<in> set cats) anno
      in if \<not> remap then Inr (img, anno)
         else case remap_all cats anno of
                Inl e \<Rightarrow> Inl e
              | Inr anno' \<Rightarrow> Inr (img, anno'))"

subsection \<open>Images and masks\<close>

text \<open>
  \<^verbatim>\<open>np.array(image)\<close> of an 8-bit PIL image: a 2-dimensional array (rows of pixels), or a
  3-dimensional one with its channel count \<open>shape[2]\<close> and the channel values of each pixel.
\<close>

datatype ndimage =
    Arr2 "u8 list list"
  | Arr3 nat "u8 list list list"

text \<open>A PIL image: \<^verbatim>\<open>image.size\<close> is (width, height).\<close>

record pil_image =
  im_size :: "nat \<times> nat"
  as_array :: ndimage

text \<open>
  What \<^verbatim>\<open>coco_mask.decode(coco_mask.frPyObjects([polygons], height, width))\<close> returns: an
  array of shape (height, width) or (height, width, n), given by its entry at row \<open>y\<close> and
  column \<open>x\<close>.
\<close>

datatype decoded =
    Dec2 "nat \<Rightarrow> nat \<Rightarrow> u8"
  | Dec3 "nat \<Rightarrow> nat \<Rightarrow> u8 list"

subsection \<open>The file system\<close>

text \<open>
  Regular files with their permissions and contents, and directories with the names of
  their entries (what \<^verbatim>\<open>os.listdir\<close> returns), both by path.
\<close>

record regular_file =
  readable :: bool
  writable :: bool
  content :: string

record filesys =
  files :: "string \<rightharpoonup> regular_file"
  dirs :: "string \<rightharpoonup> string list"

definition os_listdir :: "filesys \<Rightarrow> string \<Rightarrow> error + string list" where
  "os_listdir fs p = (case dirs fs p of None \<Rightarrow> Inl OSError | Some names \<Rightarrow> Inr names)"

definition os_path_isfile :: "filesys \<Rightarrow> string \<Rightarrow> bool" where
  "os_path_isfile fs p = (files fs p \<noteq> None)"

text \<open>\<^verbatim>\<open>os.access(p, os.R_OK)\<close>, as the loader uses it: on a path that is a regular file.\<close>

definition os_access_R_OK :: "filesys \<Rightarrow> string \<Rightarrow> bool" where
  "os_access_R_OK fs p = (case files fs p of None \<Rightarrow> False | Some f \<Rightarrow> readable f)"

text \<open>\<^verbatim>\<open>os.path.join(a, b)\<close> on POSIX paths.\<close>

definition os_path_join :: "string \<Rightarrow> string \<Rightarrow> string" where
  "os_path_join a b =
     (if b \<noteq> [] \<and> hd b = CHR ''/'' then b
      else if a = [] \<or> last a = CHR ''/'' then a @ b
      else a @ ''/'' @ b)"

definition dirname :: "string \<Rightarrow> string" where
  "dirname p = rev (drop 1 (dropWhile (\<lambda>c. c \<noteq> CHR ''/'') (rev p)))"

definition basename :: "string \<Rightarrow> string" where
  "basename p = rev (takeWhile (\<lambda>c. c \<noteq> CHR ''/'') (rev p))"

text \<open>
  \<^verbatim>\<open>with open(p, 'a') as fp: fp.write(text)\<close>: appends to a writable file, creates the file in
  an existing directory, and raises otherwise.
\<close>

definition open_append_write :: "filesys \<Rightarrow> string \<Rightarrow> string \<Rightarrow> error + filesys" where
  "open_append_write fs p txt =
     (case files fs p of
        Some f \<Rightarrow>
          (if writable f then Inr (fs\<lparr>files := (files fs)(p \<mapsto> f\<lparr>content := content f @ txt\<rparr>)\<rparr>)
           else Inl OSError)
      | None \<Rightarrow>
          (if dirs fs p \<noteq> None then Inl OSError
           else case dirs fs (dirname p) of
                  None \<Rightarrow> Inl OSError
                | Some names \<Rightarrow>
                    Inr (fs\<lparr>files := (files fs)(p \<mapsto> \<lparr>readable = True, writable = True, content = txt\<rparr>),
                            dirs := (dirs fs)(dirname p \<mapsto> names @ [basename p])\<rparr>)))"

subsection \<open>The external libraries\<close>

type_synonym colour = "u8 \<times> u8 \<times> u8"

text \<open>
  \<^verbatim>\<open>Image.open\<close>, the polygon rasteriser, the \<^verbatim>\<open>COCO\<close> constructor (it reads the annotation
  file), \<^verbatim>\<open>random.seed(s); random.shuffle(ids)\<close>, \<^verbatim>\<open>xnn.utils.get_color_palette\<close>,
  \<^verbatim>\<open>dataset_split(path, 0.2)\<close> (a dictionary from split names to annotation data) and
  \<^verbatim>\<open>json.dump\<close>.
\<close>

record ('seg, 'data) libs =
  image_open :: "string \<Rightarrow> pil_image option"
  coco_decode :: "'seg \<Rightarrow> nat \<Rightarrow> nat \<Rightarrow> decoded"
  COCO :: "filesys \<Rightarrow> string \<Rightarrow> 'seg coco option"
  random_shuffle :: "int \<Rightarrow> int list \<Rightarrow> int list"
  get_color_palette :: "int \<Rightarrow> colour list"
  dataset_split :: "filesys \<Rightarrow> string \<Rightarrow> (string \<times> 'data) list option"
  json_dump :: "'data \<Rightarrow> string"

definition tabulate2 :: "nat \<Rightarrow> nat \<Rightarrow> (nat \<Rightarrow> nat \<Rightarrow> 'a) \<Rightarrow> 'a list list" where
  "tabulate2 h w f = map (\<lambda>y. map (\<lambda>x. f y x) [0..<w]) [0..<h]"

text \<open>\<^verbatim>\<open>mask[..., None]\<close> for a 2-dimensional result (line 129).\<close>

definition expand_last :: "decoded \<Rightarrow> nat \<Rightarrow> nat \<Rightarrow> u8 list" where
  "expand_last dec = (case dec of Dec2 g \<Rightarrow> (\<lambda>y x. [g y x]) | Dec3 f \<Rightarrow> f)"

text \<open>\<^verbatim>\<open>mask.any(axis=2)\<close> and \<^verbatim>\<open>mask.astype(np.uint8)\<close> (lines 130-131).\<close>

definition any_axis2 :: "nat \<Rightarrow> nat \<Rightarrow> (nat \<Rightarrow> nat \<Rightarrow> u8 list) \<Rightarrow> bool list list" where
  "any_axis2 h w f = tabulate2 h w (\<lambda>y x. list_ex (\<lambda>v. v \<noteq> 0) (f y x))"

definition astype_uint8 :: "bool list list \<Rightarrow> u8 list list" where
  "astype_uint8 m = map (map (\<lambda>b. if b then 1 else 0)) m"

text \<open>
  \<^verbatim>\<open>_convert_poly_to_mask\<close> (lines 122-137): one binary layer per annotation. The stacked
  array is the list of its layers.
\<close>

definition convert_poly_to_mask ::
  "('seg \<Rightarrow> nat \<Rightarrow> nat \<Rightarrow> decoded) \<Rightarrow> 'seg list \<Rightarrow> nat \<Rightarrow> nat \<Rightarrow> u8 list list list" where
  "convert_poly_to_mask decode segmentations height width =
     map (\<lambda>polygons.
            let dec = decode polygons height width;
                layer = any_axis2 height width (expand_last dec)
            in astype_uint8 layer)
         segmentations"

text \<open>\<^verbatim>\<open>a.max(axis=0)\<close>; numpy raises \<^verbatim>\<open>ValueError\<close> on an empty first axis.\<close>

fun max_axis0 :: "u8 list list list \<Rightarrow> error + u8 list list" where
  "max_axis0 [] = Inl ValueError"
| "max_axis0 (l # ls) = Inr (foldl (map2 (map2 max)) l ls)"

text \<open>
  \<^verbatim>\<open>_convert_polys_to_mask\<close> (lines 104-120). \<^verbatim>\<open>np.array(cats, dtype=masks.dtype)\<close> stores
  the category ids as \<^verbatim>\<open>uint8\<close>; \<^verbatim>\<open>masks * cats\<close> multiplies layer \<open>i\<close> by \<open>cats[i]\<close>.
  An id outside 0..255 is stored modulo 256, as numpy does before version 2 (from version 2
  on the conversion raises \<^verbatim>\<open>OverflowError\<close> instead).
\<close>

definition convert_polys_to_mask ::
  "('seg \<Rightarrow> nat \<Rightarrow> nat \<Rightarrow> decoded) \<Rightarrow> pil_image \<Rightarrow> 'seg annotation list
     \<Rightarrow> error + (pil_image \<times> u8 list list)" where
  "convert_polys_to_mask decode img anno =
     (let (w, h) = im_size img;
          segmentations = map segmentation anno;
          cats = map category_id anno
      in if segmentations \<noteq> [] then
           (let masks = convert_poly_to_mask decode segmentations h w;
                cats = map (word_of_int :: int \<Rightarrow> u8) cats
            in case max_axis0 (map2 (\<lambda>m c. map (map (\<lambda>v. v * c)) m) masks cats) of
                 Inl e \<Rightarrow> Inl e
               | Inr target \<Rightarrow> Inr (img, target))
         else Inr (img, tabulate2 h w (\<lambda>y x. 0)))"

text \<open>\<^verbatim>\<open>cv2.cvtColor(image, cv2.COLOR_GRAY2RGB)\<close>: the grey value in each of three channels.\<close>

definition cvtColor_GRAY2RGB :: "ndimage \<Rightarrow> ndimage" where
  "cvtColor_GRAY2RGB a =
     (case a of
        Arr2 rows \<Rightarrow> Arr3 3 (map (map (\<lambda>v. [v, v, v])) rows)
      | Arr3 c rows \<Rightarrow> Arr3 3 (map (map (\<lambda>p. concat (map (\<lambda>v. [v, v, v]) p))) rows))"

definition ndim :: "ndimage \<Rightarrow> nat" where
  "ndim a = (case a of Arr2 rows \<Rightarrow> 2 | Arr3 c rows \<Rightarrow> 3)"

definition channels :: "ndimage \<Rightarrow> nat" where
  "channels a = (case a of Arr2 rows \<Rightarrow> 0 | Arr3 c rows \<Rightarrow> c)"

subsection \<open>The dataset object\<close>

record 'seg tiscape_segmentation =
  categories :: "int list"
  annotation_prefix :: string
  tiscape_dataset :: "'seg coco"
  cat_ids :: "int list"
  img_ids :: "int list"
  imgs :: "string list"
  num_imgs :: nat

text \<open>\<^verbatim>\<open>TIScapeSegmentation.__getitem__\<close> with a label (lines 54-65).\<close>

definition getitem_with_label ::
  "('seg, 'data) libs \<Rightarrow> ('seg, 'more) tiscape_segmentation_scheme \<Rightarrow> int
     \<Rightarrow> error + (ndimage \<times> u8 list list)" where
  "getitem_with_label libs self idx =
     (case py_get (imgs self) idx of
        Inl e \<Rightarrow> Inl e
      | Inr path \<Rightarrow>
     (case image_open libs path of
        None \<Rightarrow> Inl LibraryError
      | Some img \<Rightarrow>
     (case py_get (img_ids self) idx of
        Inl e \<Rightarrow> Inl e
      | Inr img_id \<Rightarrow>
     (let anno = annsOf (tiscape_dataset self) img_id
      in case filter_and_remap_categories (categories self) img anno True of
           Inl e \<Rightarrow> Inl e
         | Inr (img, anno) \<Rightarrow>
     (case convert_polys_to_mask (coco_decode libs) img anno of
        Inl e \<Rightarrow> Inl e
      | Inr (img, target) \<Rightarrow>
     (let arr = as_array img;
          arr = (if ndim arr = 2 \<or> channels arr = 1 then cvtColor_GRAY2RGB arr else arr)
      in Inr (arr, target)))))))"

datatype item = Sample ndimage "u8 list list" | Path string

text \<open>\<^verbatim>\<open>TIScapeSegmentation.__getitem__\<close> (lines 53-67).\<close>

definition getitem ::
  "('seg, 'data) libs \<Rightarrow> ('seg, 'more) tiscape_segmentation_scheme \<Rightarrow> int \<Rightarrow> bool \<Rightarrow> error + item" where
  "getitem libs self idx with_label =
     (if with_label then
        (case getitem_with_label libs self idx of
           Inl e \<Rightarrow> Inl e
         | Inr (img, target) \<Rightarrow> Inr (Sample img target))
      else
        (case py_get (imgs self) idx of
           Inl e \<Rightarrow> Inl e
         | Inr path \<Rightarrow> Inr (Path path)))"

subsection \<open>Construction of the dataset object\<close>

text \<open>\<^verbatim>\<open>xs[:n]\<close> and \<^verbatim>\<open>xs[i:j]\<close> with Python's clipping and negative indices.\<close>

definition py_slice :: "'a list \<Rightarrow> int \<Rightarrow> int \<Rightarrow> 'a list" where
  "py_slice xs i j =
     (let n = int (length xs);
          clip = (\<lambda>k. if k < 0 then max 0 (n + k) else min k n)
      in drop (nat (clip i)) (take (nat (clip j)) xs))"

definition py_take :: "'a list \<Rightarrow> int \<Rightarrow> 'a list" where
  "py_take xs n = py_slice xs 0 n"

text \<open>\<^verbatim>\<open>{k: d[k] for k in ids}\<close> and \<^verbatim>\<open>[f(d[k]) for k in ids]\<close>: \<^verbatim>\<open>KeyError\<close> on a missing key.\<close>

fun lookup_all :: "(int \<times> 'v) list \<Rightarrow> int list \<Rightarrow> error + 'v list" where
  "lookup_all d [] = Inr []"
| "lookup_all d (k # ks) =
     (case map_of d k of
        None \<Rightarrow> Inl KeyError
      | Some v \<Rightarrow> (case lookup_all d ks of Inl e \<Rightarrow> Inl e | Inr vs \<Rightarrow> Inr (v # vs)))"

text \<open>
  \<^verbatim>\<open>TIScapeSegmentation.__init__\<close> (lines 16-51). \<open>shuffle\<close> is the integer \<^verbatim>\<open>int(shuffle)\<close>
  (0 for \<^verbatim>\<open>False\<close>), \<open>num_imgs_arg\<close> and \<open>num_classes\<close> are \<open>None\<close> by default, \<open>kwargs\<close> is
  the keyword dictionary.
\<close>

definition init ::
  "('seg, 'data) libs \<Rightarrow> filesys \<Rightarrow> string \<Rightarrow> string \<Rightarrow> int \<Rightarrow> int option \<Rightarrow> int option
     \<Rightarrow> (string \<times> string) list \<Rightarrow> error + 'seg tiscape_segmentation" where
  "init libs fs root_dir split shuffle num_imgs_arg num_classes kwargs =
     (let num_classes = (case num_classes of None \<Rightarrow> 4 | Some n \<Rightarrow> n);
          cats = py_range 1 (num_classes + 1)
      in case map_of kwargs ''annotation_prefix'' of
           None \<Rightarrow> Inl KeyError
         | Some prefix \<Rightarrow>
     (case os_listdir fs root_dir of
        Inl e \<Rightarrow> Inl e
      | Inr dataset_folders \<Rightarrow>
     (if ''annotations'' \<notin> set dataset_folders
      then Inl (AssertionError ''Invalid path to TI scape dataset annotations'')
      else
     (let annotations_dir = os_path_join root_dir ''annotations'';
          image_base_dir = (if ''images'' \<in> set dataset_folders then ''images'' else []);
          image_base_dir = os_path_join root_dir image_base_dir;
          image_dir = os_path_join image_base_dir []
      in case COCO libs fs (os_path_join annotations_dir (prefix @ ''_'' @ split @ ''.json'')) of
           None \<Rightarrow> Inl LibraryError
         | Some ds \<Rightarrow>
     (let ids = remove_images_without_annotations cats ds (getImgIds ds);
          ids = (if shuffle \<noteq> 0 then random_shuffle libs shuffle ids else ids)
      in case (case num_imgs_arg of
                 None \<Rightarrow> Inr (ids, ds)
               | Some n \<Rightarrow>
                   (let ids = py_take ids n
                    in case lookup_all (coco_imgs ds) ids of
                         Inl e \<Rightarrow> Inl e
                       | Inr names \<Rightarrow> Inr (ids, ds\<lparr>coco_imgs := zip ids names\<rparr>))) of
           Inl e \<Rightarrow> Inl e
         | Inr (ids, ds) \<Rightarrow>
     (case lookup_all (coco_imgs ds) ids of
        Inl e \<Rightarrow> Inl e
      | Inr names \<Rightarrow>
          (let paths = map (os_path_join image_dir) names
           in Inr \<lparr>categories = cats, annotation_prefix = prefix, tiscape_dataset = ds,
                   cat_ids = getCatIds ds, img_ids = ids, imgs = paths,
                   num_imgs = length paths\<rparr>)))))))"

subsection \<open>The wrapping class\<close>

type_synonym transform =
  "ndimage list \<Rightarrow> u8 list list list \<Rightarrow> (ndimage list \<times> u8 list list list) option"

record 'seg tiscape_segmentation_plus = "'seg tiscape_segmentation" +
  num_classes_field :: int
  void_classes :: "int list"
  valid_classes :: "int list"
  ignore_index :: int
  class_map :: "(int \<times> int) list"
  colors :: "colour list"
  label_colours :: "(int \<times> colour) list"
  transforms :: "transform option"

definition NUM_CLASSES :: int where
  "NUM_CLASSES = 4"

text \<open>\<^verbatim>\<open>xs * n\<close> on a list.\<close>

definition py_repeat :: "'a list \<Rightarrow> int \<Rightarrow> 'a list" where
  "py_repeat xs n = concat (replicate (nat n) xs)"

text \<open>
  \<^verbatim>\<open>TIScapeSegmentationPlus.__init__\<close> (lines 143-155). The dictionaries built with
  \<^verbatim>\<open>dict(zip(...))\<close> have distinct keys and are association lists.
\<close>

definition plus_init ::
  "('seg, 'data) libs \<Rightarrow> filesys \<Rightarrow> string \<Rightarrow> string \<Rightarrow> int \<Rightarrow> int option \<Rightarrow> int option
     \<Rightarrow> transform option \<Rightarrow> (string \<times> string) list \<Rightarrow> error + 'seg tiscape_segmentation_plus" where
  "plus_init libs fs root_dir split shuffle num_imgs_arg num_classes tr kwargs =
     (let num_classes = (case num_classes of None \<Rightarrow> NUM_CLASSES | Some n \<Rightarrow> n)
      in case init libs fs root_dir split shuffle num_imgs_arg
                (Some (if num_classes = 4 then num_classes else NUM_CLASSES)) kwargs of
           Inl e \<Rightarrow> Inl e
         | Inr base \<Rightarrow>
             (let valid = py_range 1 (num_classes + 1);
                  cols = get_color_palette libs (num_classes + 1);
                  cols = py_slice (py_repeat cols num_classes) 1 (num_classes + 1)
              in Inr (tiscape_segmentation.extend base
                        (tiscape_segmentation_plus.fields num_classes [] valid 255
                           (zip valid (py_range 1 (num_classes + 1))) cols
                           (zip (py_range 0 num_classes) cols) tr))))"

text \<open>
  Comparing a Python list with an integer: \<^verbatim>\<open>[a] == 0\<close> is \<^verbatim>\<open>False\<close> and \<^verbatim>\<open>[a] != 255\<close> is
  \<^verbatim>\<open>True\<close>, whatever the list holds (neither type implements the comparison).
\<close>

definition list_eq_int :: "'a list \<Rightarrow> int \<Rightarrow> bool" where
  "list_eq_int xs n = False"

definition list_ne_int :: "'a list \<Rightarrow> int \<Rightarrow> bool" where
  "list_ne_int xs n = True"

text \<open>
  numpy indexing with a scalar boolean: \<^verbatim>\<open>a[True]\<close> selects every element of \<open>a\<close> and
  \<^verbatim>\<open>a[False]\<close> none. \<^verbatim>\<open>a[b] = v\<close> and \<^verbatim>\<open>a[b] -= d\<close> on a \<^verbatim>\<open>uint8\<close> array; the subtraction
  wraps around.
\<close>

definition setitem_bool :: "u8 list list \<Rightarrow> bool \<Rightarrow> u8 \<Rightarrow> u8 list list" where
  "setitem_bool a b v = (if b then map (map (\<lambda>x. v)) a else a)"

definition isub_bool :: "u8 list list \<Rightarrow> bool \<Rightarrow> u8 \<Rightarrow> u8 list list" where
  "isub_bool a b d = (if b then map (map (\<lambda>x. x - d)) a else a)"

text \<open>
  \<^verbatim>\<open>TIScapeSegmentationPlus.__getitem__\<close> (lines 157-167). \<open>target\<close> is a list holding the
  mask, so lines 165 and 166 index the mask with the booleans above.
\<close>

definition plus_getitem ::
  "('seg, 'data) libs \<Rightarrow> 'seg tiscape_segmentation_plus \<Rightarrow> int
     \<Rightarrow> error + (ndimage list \<times> u8 list list list)" where
  "plus_getitem libs self idx =
     (case getitem_with_label libs self idx of
        Inl e \<Rightarrow> Inl e
      | Inr (img, target) \<Rightarrow>
     (case (case transforms self of
              None \<Rightarrow> Some ([img], [target])
            | Some t \<Rightarrow> t [img] [target]) of
        None \<Rightarrow> Inl LibraryError
      | Some (imgl, targetl) \<Rightarrow>
     (case py_get targetl 0 of
        Inl e \<Rightarrow> Inl e
      | Inr t0 \<Rightarrow>
     (let t0 = setitem_bool t0 (list_eq_int targetl 0) 255;
          targetl = targetl[0 := t0];
          t0 = isub_bool t0 (list_ne_int targetl 255) 1;
          targetl = targetl[0 := t0]
      in Inr (imgl, targetl)))))"

text \<open>\<^verbatim>\<open>num_classes\<close> (lines 169-171).\<close>

definition num_classes_of :: "'seg tiscape_segmentation_plus \<Rightarrow> int list" where
  "num_classes_of self = [num_classes_field self]"

subsection \<open>Colour encoding\<close>

text \<open>
  \<^verbatim>\<open>decode_segmap\<close> divides by \<^verbatim>\<open>255.0\<close> and so returns a floating-point array. The float
  operations it needs are parameters: the quotient \<^verbatim>\<open>x / 255.0\<close> of a \<^verbatim>\<open>uint8\<close> value, the
  comparison \<^verbatim>\<open>x == n\<close> of a float with a Python integer, and the float stored by
  \<^verbatim>\<open>a[...] = n\<close>.
\<close>

record 'f float_ops =
  div255 :: "u8 \<Rightarrow> 'f"
  eq_int :: "'f \<Rightarrow> int \<Rightarrow> bool"
  of_py_int :: "int \<Rightarrow> 'f"

text \<open>The arrays the two functions see: a \<^verbatim>\<open>uint8\<close> mask, or a float array of shape (h, w, 3).\<close>

datatype 'f ndarray =
    U8 "u8 list list"
  | F64 "'f list list list"

text \<open>\<^verbatim>\<open>a[temp == l] = v\<close> on \<^verbatim>\<open>uint8\<close> arrays of one shape.\<close>

definition assign_where :: "u8 list list \<Rightarrow> int \<Rightarrow> u8 \<Rightarrow> u8 list list \<Rightarrow> u8 list list" where
  "assign_where temp l v a = map2 (map2 (\<lambda>t x. if uint t = l then v else x)) temp a"

text \<open>The loop of \<^verbatim>\<open>decode_segmap\<close> (lines 177-180); \<^verbatim>\<open>label_colours[l]\<close> may raise.\<close>

fun decode_loop ::
  "(int \<times> colour) list \<Rightarrow> u8 list list \<Rightarrow> u8 list list \<times> u8 list list \<times> u8 list list
     \<Rightarrow> int list \<Rightarrow> error + (u8 list list \<times> u8 list list \<times> u8 list list)" where
  "decode_loop lc temp rgb [] = Inr rgb"
| "decode_loop lc temp (r, g, b) (l # ls) =
     (case map_of lc l of
        None \<Rightarrow> Inl KeyError
      | Some (c0, c1, c2) \<Rightarrow>
          decode_loop lc temp
            (assign_where temp l c0 r, assign_where temp l c1 g, assign_where temp l c2 b) ls)"

text \<open>\<^verbatim>\<open>decode_segmap\<close> (lines 173-186) on a \<^verbatim>\<open>uint8\<close> mask.\<close>

definition decode_segmap ::
  "'seg tiscape_segmentation_plus \<Rightarrow> 'f float_ops \<Rightarrow> u8 list list \<Rightarrow> error + 'f list list list" where
  "decode_segmap self fl temp =
     (case decode_loop (label_colours self) temp (temp, temp, temp)
             (py_range 0 (num_classes_field self)) of
        Inl e \<Rightarrow> Inl e
      | Inr (r, g, b) \<Rightarrow>
          Inr (map (\<lambda>(rr, gr, br).
                      map (\<lambda>(rv, gv, bv). [div255 fl rv, div255 fl gv, div255 fl bv])
                          (zip rr (zip gr br)))
                   (zip r (zip g b))))"

text \<open>\<^verbatim>\<open>mask[mask == v] = c\<close> for Python integers \<open>v\<close> and \<open>c\<close>.\<close>

definition replace_value :: "'f float_ops \<Rightarrow> 'f ndarray \<Rightarrow> int \<Rightarrow> int \<Rightarrow> 'f ndarray" where
  "replace_value fl a v c =
     (case a of
        U8 rows \<Rightarrow> U8 (map (map (\<lambda>x. if uint x = v then word_of_int c else x)) rows)
      | F64 rows \<Rightarrow>
          F64 (map (map (map (\<lambda>x. if eq_int fl x v then of_py_int fl c else x))) rows))"

fun encode_void :: "'f float_ops \<Rightarrow> int \<Rightarrow> 'f ndarray \<Rightarrow> int list \<Rightarrow> 'f ndarray" where
  "encode_void fl ign a [] = a"
| "encode_void fl ign a (voidc # rest) = encode_void fl ign (replace_value fl a voidc ign) rest"

fun encode_valid ::
  "'f float_ops \<Rightarrow> (int \<times> int) list \<Rightarrow> 'f ndarray \<Rightarrow> int list \<Rightarrow> error + 'f ndarray" where
  "encode_valid fl cm a [] = Inr a"
| "encode_valid fl cm a (validc # rest) =
     (case map_of cm validc of
        None \<Rightarrow> Inl KeyError
      | Some c \<Rightarrow> encode_valid fl cm (replace_value fl a validc c) rest)"

text \<open>\<^verbatim>\<open>encode_segmap\<close> (lines 188-194).\<close>

definition encode_segmap ::
  "'seg tiscape_segmentation_plus \<Rightarrow> 'f float_ops \<Rightarrow> 'f ndarray \<Rightarrow> error + 'f ndarray" where
  "encode_segmap self fl a =
     encode_valid fl (class_map self)
       (encode_void fl (ignore_index self) a (void_classes self)) (valid_classes self)"

subsection \<open>Module functions\<close>

text \<open>\<^verbatim>\<open>write_to_jsonfile\<close> (lines 205-211).\<close>

definition write_to_jsonfile ::
  "('seg, 'data) libs \<Rightarrow> filesys \<Rightarrow> string \<Rightarrow> string \<Rightarrow> 'data \<Rightarrow> error + filesys" where
  "write_to_jsonfile libs fs path filename data =
     (let filepathnamewext = path @ ''/'' @ filename @ ''.json''
      in if os_path_isfile fs filepathnamewext \<and> os_access_R_OK fs filepathnamewext
         then Inr fs
         else open_append_write fs filepathnamewext (json_dump libs data))"

definition startswith :: "string \<Rightarrow> string \<Rightarrow> bool" where
  "startswith s p = (take (length p) s = p)"

text \<open>\<^verbatim>\<open>transforms[i]\<close>, where \<open>transforms\<close> is \<open>None\<close> by default.\<close>

definition transforms_at :: "transform option list option \<Rightarrow> int \<Rightarrow> error + transform option" where
  "transforms_at trs i = (case trs of None \<Rightarrow> Inl TypeError | Some ts \<Rightarrow> py_get ts i)"

text \<open>
  One iteration of the loop of \<^verbatim>\<open>tiscape_segmentation\<close> (lines 220-231): the state is the
  file system and the two splits built so far.
\<close>

definition split_step ::
  "('seg, 'data) libs \<Rightarrow> int \<Rightarrow> string \<Rightarrow> transform option list option \<Rightarrow> string \<Rightarrow> int
     \<Rightarrow> int option \<Rightarrow> (string \<times> string) list \<Rightarrow> (string \<times> 'data) list
     \<Rightarrow> filesys \<times> 'seg tiscape_segmentation_plus option \<times> 'seg tiscape_segmentation_plus option
     \<Rightarrow> string
     \<Rightarrow> error + (filesys \<times> 'seg tiscape_segmentation_plus option
                  \<times> 'seg tiscape_segmentation_plus option)" where
  "split_step libs n root_dir trs pre shuffle num_imgs_arg kwargs instances st split_name =
     (case st of (fs, train_split, val_split) \<Rightarrow>
      if startswith split_name ''train'' then
        (case map_of instances split_name of
           None \<Rightarrow> Inl KeyError
         | Some data \<Rightarrow>
        (case write_to_jsonfile libs fs (os_path_join root_dir ''annotations'')
                (pre @ ''_'' @ split_name) data of
           Inl e \<Rightarrow> Inl e
         | Inr fs \<Rightarrow>
        (case transforms_at trs 0 of
           Inl e \<Rightarrow> Inl e
         | Inr tr \<Rightarrow>
        (case plus_init libs fs root_dir split_name shuffle num_imgs_arg (Some n) tr
                ((''annotation_prefix'', pre) # kwargs) of
           Inl e \<Rightarrow> Inl e
         | Inr ds \<Rightarrow> Inr (fs, Some ds, val_split)))))
      else if startswith split_name ''val'' then
        (case map_of instances split_name of
           None \<Rightarrow> Inl KeyError
         | Some data \<Rightarrow>
        (case write_to_jsonfile libs fs (os_path_join root_dir ''annotations'')
                (pre @ ''_'' @ split_name) data of
           Inl e \<Rightarrow> Inl e
         | Inr fs \<Rightarrow>
        (case transforms_at trs 1 of
           Inl e \<Rightarrow> Inl e
         | Inr tr \<Rightarrow>
        (case plus_init libs fs root_dir split_name shuffle num_imgs_arg (Some n) tr
                ((''annotation_prefix'', pre) # kwargs) of
           Inl e \<Rightarrow> Inl e
         | Inr ds \<Rightarrow> Inr (fs, train_split, Some ds)))))
      else Inl (AssertionError ''unknown split''))"

fun split_loop ::
  "('st \<Rightarrow> string \<Rightarrow> error + 'st) \<Rightarrow> 'st \<Rightarrow> string list \<Rightarrow> error + 'st" where
  "split_loop step st [] = Inr st"
| "split_loop step st (split_name # rest) =
     (case step st split_name of
        Inl e \<Rightarrow> Inl e
      | Inr st' \<Rightarrow> split_loop step st' rest)"

text \<open>\<^verbatim>\<open>get_config\<close> (lines 199-202) merged with the caller's configuration.\<close>

definition get_config :: int where
  "get_config = 4"

definition merge_from :: "int \<Rightarrow> int option \<Rightarrow> int" where
  "merge_from dflt dataset_config = (case dataset_config of None \<Rightarrow> dflt | Some n \<Rightarrow> n)"

text \<open>
  \<^verbatim>\<open>tiscape_segmentation\<close> (lines 214-233). \<open>dataset_config\<close> is the caller's
  \<^verbatim>\<open>num_classes\<close> entry if any; \<open>shuffle\<close>, \<open>num_imgs_arg\<close> and \<open>kwargs\<close> are the remaining
  arguments, handed on to the constructor. The argument \<open>split\<close> is overwritten in line 219.
\<close>

definition tiscape_segmentation ::
  "('seg, 'data) libs \<Rightarrow> filesys \<Rightarrow> int option \<Rightarrow> string \<Rightarrow> string option
     \<Rightarrow> transform option list option \<Rightarrow> string \<Rightarrow> int \<Rightarrow> int option \<Rightarrow> (string \<times> string) list
     \<Rightarrow> error + (filesys \<times> 'seg tiscape_segmentation_plus option
                  \<times> 'seg tiscape_segmentation_plus option)" where
  "tiscape_segmentation libs fs dataset_config root_dir split trs pre shuffle num_imgs_arg kwargs =
     (let n = merge_from get_config dataset_config
      in case dataset_split libs fs
                (os_path_join (os_path_join root_dir ''annotations'') (pre @ ''_sorted.json'')) of
           None \<Rightarrow> Inl LibraryError
         | Some instances \<Rightarrow>
             (let split = [''train'', ''val'']
              in split_loop
                   (split_step libs n root_dir trs pre shuffle num_imgs_arg kwargs instances)
                   (fs, None, None) split))"

subsection \<open>Auxiliary notions for the proofs\<close>

text \<open>
  The entry at row \<open>y\<close>, column \<open>x\<close> of the layer \<^verbatim>\<open>_convert_poly_to_mask\<close> builds for one
  segmentation (lines 126-131).
\<close>

definition instance_bit ::
  "('seg \<Rightarrow> nat \<Rightarrow> nat \<Rightarrow> decoded) \<Rightarrow> nat \<Rightarrow> nat \<Rightarrow> 'seg \<Rightarrow> nat \<Rightarrow> nat \<Rightarrow> u8" where
  "instance_bit decode h w seg y x =
     (if list_ex (\<lambda>v. v \<noteq> 0) (expand_last (decode seg h w) y x) then 1 else 0)"

subsection \<open>A small concrete dataset\<close>

text \<open>
  Images of height 1 and width 2. Image 7 has two annotations that overlap in the pixel of
  column 1, image 8 has no annotation of a category in 1..4, image 9 is a grey-scale file
  and image 10 an RGBA file. A segmentation is given here by the list of the pixels
  (row, column) it covers, and the rasteriser returns an array with one layer.
\<close>

definition ex_decode :: "(nat \<times> nat) list \<Rightarrow> nat \<Rightarrow> nat \<Rightarrow> decoded" where
  "ex_decode seg h w = Dec3 (\<lambda>y x. [if (y, x) \<in> set seg then 1 else 0])"

definition ex_anns :: "int \<Rightarrow> (nat \<times> nat) list annotation list" where
  "ex_anns i =
     (if i = 7 then
        [\<lparr>category_id = 2, segmentation = [(0, 0), (0, 1)], area = 800\<rparr>,
         \<lparr>category_id = 3, segmentation = [(0, 1)], area = 600\<rparr>]
      else if i = 8 then
        [\<lparr>category_id = 9, segmentation = [(0, 0)], area = 2000\<rparr>]
      else if i = 9 then
        [\<lparr>category_id = 4, segmentation = [(0, 0)], area = 2000\<rparr>]
      else if i = 10 then
        [\<lparr>category_id = 1, segmentation = [(0, 1)], area = 1500\<rparr>]
      else [])"

definition ex_coco :: "(nat \<times> nat) list coco" where
  "ex_coco =
     \<lparr>getCatIds = [1, 2, 3, 4, 9], getImgIds = [7, 8, 9, 10], annsOf = ex_anns,
      coco_imgs = [(7, ''a.png''), (8, ''b.png''), (9, ''c.png''), (10, ''d.png'')]\<rparr>"

definition ex_image :: pil_image where
  "ex_image = \<lparr>im_size = (2, 1), as_array = Arr3 3 [[[10, 20, 30], [40, 50, 60]]]\<rparr>"

definition ex_image_rgba :: pil_image where
  "ex_image_rgba = \<lparr>im_size = (2, 1), as_array = Arr3 4 [[[10, 20, 30, 255], [40, 50, 60, 255]]]\<rparr>"

definition ex_image_grey :: pil_image where
  "ex_image_grey = \<lparr>im_size = (2, 1), as_array = Arr2 [[10, 40]]\<rparr>"

definition ex_palette :: "int \<Rightarrow> colour list" where
  "ex_palette n = [(0, 0, 0), (0, 0, 255), (0, 255, 0), (0, 255, 255), (255, 0, 0)]"

definition ex_libs :: "((nat \<times> nat) list, string) libs" where
  "ex_libs =
     \<lparr>image_open = (\<lambda>p. if p = ''r/images/d.png'' then Some ex_image_rgba
                         else if p = ''r/images/c.png'' then Some ex_image_grey
                         else if p = ''r/images/a.png'' \<or> p = ''r/images/b.png'' then Some ex_image
                         else None),
      coco_decode = ex_decode,
      COCO = (\<lambda>fs p. if files fs p \<noteq> None then Some ex_coco else None),
      random_shuffle = (\<lambda>seed ids. ids),
      get_color_palette = ex_palette,
      dataset_split =
        (\<lambda>fs p. if files fs p \<noteq> None then Some [(''train'', ''T''), (''val'', ''V'')] else None),
      json_dump = (\<lambda>d. d)\<rparr>"

text \<open>
  The dataset directory: the sorted annotation file and the train split exist, the val
  split does not. \<open>ex_fs_after\<close> is the directory once the val split has been written.
\<close>

definition ex_fs :: filesys where
  "ex_fs =
     \<lparr>files =
        [''r/annotations/stuff_sorted.json'' \<mapsto>
           \<lparr>readable = True, writable = True, content = ''S''\<rparr>,
         ''r/annotations/stuff_train.json'' \<mapsto>
           \<lparr>readable = True, writable = True, content = ''T''\<rparr>],
      dirs =
        [''r'' \<mapsto> [''annotations'', ''images''],
         ''r/annotations'' \<mapsto> [''stuff_sorted.json'', ''stuff_train.json''],
         ''r/images'' \<mapsto> [''a.png'', ''b.png'', ''c.png'', ''d.png'']]\<rparr>"

definition ex_fs_after :: filesys where
  "ex_fs_after =
     ex_fs\<lparr>files := (files ex_fs)(''r/annotations/stuff_val.json'' \<mapsto>
                        \<lparr>readable = True, writable = True, content = ''V''\<rparr>),
           dirs := (dirs ex_fs)(''r/annotations'' \<mapsto>
                        [''stuff_sorted.json'', ''stuff_train.json'', ''stuff_val.json''])\<rparr>"

text \<open>The floating-point operations on the values that occur in the examples, as exact
  rationals: there the quotients by 255 are 0 and 1, which a float division returns exactly.\<close>

definition ex_float :: "rat float_ops" where
  "ex_float =
     \<lparr>div255 = (\<lambda>x. of_nat (unat x) / 255),
      eq_int = (\<lambda>x n. x = of_int n),
      of_py_int = of_int\<rparr>"

text \<open>
  The dataset object the constructor builds from the example with four classes, and the
  object of the wrapping class for a configured class count \<open>n\<close>.
\<close>

definition ex_dataset :: "(nat \<times> nat) list tiscape_segmentation" where
  "ex_dataset =
     \<lparr>categories = [1, 2, 3, 4], annotation_prefix = ''stuff'', tiscape_dataset = ex_coco,
      cat_ids = [1, 2, 3, 4, 9], img_ids = [7, 9, 10],
      imgs = [''r/images/a.png'', ''r/images/c.png'', ''r/images/d.png''], num_imgs = 3\<rparr>"

definition ex_plus :: "int \<Rightarrow> (nat \<times> nat) list tiscape_segmentation_plus" where
  "ex_plus n =
     tiscape_segmentation.extend ex_dataset
       (tiscape_segmentation_plus.fields n [] (py_range 1 (n + 1)) 255
          (zip (py_range 1 (n + 1)) (py_range 1 (n + 1)))
          (py_slice (py_repeat (ex_palette (n + 1)) n) 1 (n + 1))
          (zip (py_range 0 n) (py_slice (py_repeat (ex_palette (n + 1)) n) 1 (n + 1)))
          None)"

text \<open>
  An object of the wrapping class whose only image (id 8) has no annotation of a permitted
  category.
\<close>

definition ex_unlabelled :: "(nat \<times> nat) list tiscape_segmentation_plus" where
  "ex_unlabelled = (ex_plus 4)\<lparr>img_ids := [8], imgs := [''r/images/b.png''], num_imgs := 1\<rparr>"





text \<open>
  The directory with an annotation file for a split named \<^verbatim>\<open>test\<close>, and a root directory
  without the folder \<^verbatim>\<open>annotations\<close>.
\<close>

definition ex_fs_test :: filesys where
  "ex_fs_test =
     ex_fs\<lparr>files := (files ex_fs)(''r/annotations/stuff_test.json'' \<mapsto>
                        \<lparr>readable = True, writable = True, content = ''T''\<rparr>)\<rparr>"

definition ex_fs_bare :: filesys where
  "ex_fs_bare = \<lparr>files = Map.empty, dirs = [''r'' \<mapsto> [''images'']]\<rparr>"

section \<open>Properties\<close>

subsection \<open>Python containers\<close>

lemma py_index_upto:
  "a \<le> c \<Longrightarrow> c \<le> b \<Longrightarrow> py_index [a..b] c = Inr (c - a)"
proof (induction a b rule: upto.induct)
  case (1 i j)
  show ?case
  proof (cases "i = c")
    case True
    with 1 show ?thesis by (simp add: upto_rec1)
  next
    case False
    with 1 have "i + 1 \<le> c" "i \<le> j" by simp_all
    with 1 False show ?thesis by (simp add: upto_rec1)
  qed
qed

lemma py_index_sound:
  "py_index xs v = Inr i \<Longrightarrow>
     0 \<le> i \<and> nat i < length xs \<and> xs ! nat i = v \<and> (\<forall>j<nat i. xs ! j \<noteq> v)"
proof (induction xs arbitrary: i)
  case Nil
  then show ?case by simp
next
  case (Cons x xs)
  show ?case
  proof (cases "x = v")
    case True
    with Cons.prems show ?thesis by simp
  next
    case False
    with Cons.prems obtain k where k: "py_index xs v = Inr k" "i = k + 1"
      by (auto split: sum.splits)
    from Cons.IH[OF k(1)]
    have ih: "0 \<le> k" "nat k < length xs" "xs ! nat k = v" "\<forall>j<nat k. xs ! j \<noteq> v"
      by simp_all
    have n: "nat i = Suc (nat k)" using k ih by simp
    show ?thesis using ih False n k
      by (auto simp: nth_Cons split: nat.splits)
  qed
qed

lemma set_py_range: "set (py_range a b) = {a..<b}"
  by (auto simp: py_range_def)

lemma set_py_range_1: "set (py_range 1 (n + 1)) = {1..n}"
  by (auto simp: py_range_def)

lemma py_range_empty_iff: "py_range 1 (n + 1) = [] \<longleftrightarrow> n < 1"
  by (simp add: py_range_def)

subsection \<open>Category remap\<close>

lemma remap_category_range:
  "1 \<le> c \<Longrightarrow> c \<le> n \<Longrightarrow> remap_category (py_range 1 (n + 1)) c = Inr c"
  by (simp add: remap_category_def py_range_def py_index_upto)

lemma remap_category_index:
  "remap_category cats c = Inr r \<Longrightarrow>
     \<exists>i. py_index cats c = Inr i \<and> 0 \<le> i \<and> nat i < length cats \<and> cats ! nat i = c \<and> r = i + 1"
  by (auto simp: remap_category_def split: sum.splits dest: py_index_sound)

lemma remap_all_range:
  "\<forall>obj\<in>set anno. category_id obj \<in> {1..n} \<Longrightarrow> remap_all (py_range 1 (n + 1)) anno = Inr anno"
  by (induction anno) (simp_all add: remap_category_range)

lemma remap_all_spec:
  "remap_all cats anno = Inr anno' \<Longrightarrow>
     list_all2 (\<lambda>obj obj'. \<exists>c. remap_category cats (category_id obj) = Inr c
                               \<and> obj' = obj\<lparr>category_id := c\<rparr>) anno anno'"
  by (induction anno arbitrary: anno') (auto split: sum.splits)

lemma filter_and_remap_range:
  "filter_and_remap_categories (py_range 1 (n + 1)) img anno True =
     Inr (img, filter (\<lambda>obj. category_id obj \<in> {1..n}) anno)"
  by (simp add: filter_and_remap_categories_def set_py_range_1 remap_all_range)

lemma filter_and_remap_spec:
  assumes "filter_and_remap_categories cats img anno True = Inr (img', anno')"
  shows "img' = img \<and>
     list_all2 (\<lambda>obj obj'. \<exists>c. remap_category cats (category_id obj) = Inr c
                               \<and> obj' = obj\<lparr>category_id := c\<rparr>)
       (filter (\<lambda>obj. category_id obj \<in> set cats) anno) anno'"
  using assms
  by (auto simp: filter_and_remap_categories_def Let_def split: sum.splits dest: remap_all_spec)

text \<open>
  Claim C3. With the permitted categories \<^verbatim>\<open>range(1, N+1)\<close> of the constructor,
  \<^verbatim>\<open>_filter_and_remap_categories\<close> keeps the annotations whose category is permitted and gives
  each of them the category (index of the original id in the permitted list) + 1; the
  permitted id set is \<open>{1..N}\<close>, and the remap is injective on it with image \<open>{1..N}\<close>, that
  is, a bijection from the permitted id set onto \<open>{1..N}\<close>.
\<close>

theorem category_remap_bijection:
  fixes N :: int
  shows "set (py_range 1 (N + 1)) = {1..N}
    \<and> (\<forall>c\<in>set (py_range 1 (N + 1)).
          \<exists>i. py_index (py_range 1 (N + 1)) c = Inr i \<and> 0 \<le> i
             \<and> py_range 1 (N + 1) ! nat i = c
             \<and> remap_category (py_range 1 (N + 1)) c = Inr (i + 1))
    \<and> inj_on (remap_category (py_range 1 (N + 1))) (set (py_range 1 (N + 1)))
    \<and> remap_category (py_range 1 (N + 1)) ` set (py_range 1 (N + 1)) = Inr ` {1..N}
    \<and> (\<exists>anno'. filter_and_remap_categories (py_range 1 (N + 1)) img anno True = Inr (img, anno')
          \<and> list_all2 (\<lambda>obj obj'. \<exists>i. py_index (py_range 1 (N + 1)) (category_id obj) = Inr i
                                     \<and> obj' = obj\<lparr>category_id := i + 1\<rparr>)
              (filter (\<lambda>obj. category_id obj \<in> set (py_range 1 (N + 1))) anno) anno')"
proof -
  let ?cats = "py_range 1 (N + 1)"
  have s: "set ?cats = {1..N}" by (rule set_py_range_1)
  have idx: "\<forall>c\<in>set ?cats. \<exists>i. py_index ?cats c = Inr i \<and> 0 \<le> i \<and> ?cats ! nat i = c
               \<and> remap_category ?cats c = Inr (i + 1)"
  proof
    fix c assume "c \<in> set ?cats"
    then have "remap_category ?cats c = Inr c" by (simp add: s remap_category_range)
    from remap_category_index[OF this] show "\<exists>i. py_index ?cats c = Inr i \<and> 0 \<le> i
        \<and> ?cats ! nat i = c \<and> remap_category ?cats c = Inr (i + 1)"
      by (auto simp: remap_category_def)
  qed
  have inj: "inj_on (remap_category ?cats) (set ?cats)"
    by (rule inj_onI) (simp add: s remap_category_range)
  have img: "remap_category ?cats ` set ?cats = Inr ` {1..N}"
    unfolding s by (rule image_cong) (simp_all add: remap_category_range)
  obtain anno' where a: "filter_and_remap_categories ?cats img anno True = Inr (img, anno')"
    by (simp add: filter_and_remap_range)
  from filter_and_remap_spec[OF a]
  have "list_all2 (\<lambda>obj obj'. \<exists>c. remap_category ?cats (category_id obj) = Inr c
                               \<and> obj' = obj\<lparr>category_id := c\<rparr>)
          (filter (\<lambda>obj. category_id obj \<in> set ?cats) anno) anno'" by simp
  then have "list_all2 (\<lambda>obj obj'. \<exists>i. py_index ?cats (category_id obj) = Inr i
                                     \<and> obj' = obj\<lparr>category_id := i + 1\<rparr>)
          (filter (\<lambda>obj. category_id obj \<in> set ?cats) anno) anno'"
    by (rule list_all2_mono) (auto dest: remap_category_index)
  with a s idx inj img show ?thesis by blast
qed

theorem category_remap_bijection_witness:
  "remap_category (py_range 1 (4 + 1)) ` set (py_range 1 (4 + 1)) = Inr ` {1..4}
   \<and> inj_on (remap_category (py_range 1 (4 + 1))) (set (py_range 1 (4 + 1)))
   \<and> (3::int) \<in> set (py_range 1 (4 + 1))
   \<and> remap_category (py_range 1 (4 + 1)) 3 = Inr 3"
proof -
  have m: "(3::int) \<in> set (py_range 1 (4 + 1))" by (simp add: py_range_def)
  have r: "remap_category (py_range 1 (4 + 1)) 3 = Inr 3"
    by (simp add: remap_category_def py_range_def upto_rec1)
  from category_remap_bijection[where N = 4 and img = "()" and anno = "[] :: unit annotation list"]
  have "remap_category (py_range 1 (4 + 1)) ` set (py_range 1 (4 + 1)) = Inr ` {1..4}"
    and "inj_on (remap_category (py_range 1 (4 + 1))) (set (py_range 1 (4 + 1)))"
    by blast+
  with m r show ?thesis by (intro conjI)
qed

subsection \<open>Validity filter\<close>

lemma remove_images_loop_filter:
  "remove_images_loop cats ds ids ids0 =
     ids @ filter (\<lambda>i. has_valid_annotation (filtered_for_validity cats (annsOf ds i))) ids0"
  by (induction ids0 arbitrary: ids) (simp_all add: Let_def)

lemma remove_images_filter:
  "remove_images_without_annotations cats ds ids0 =
     filter (\<lambda>i. has_valid_annotation (filtered_for_validity cats (annsOf ds i))) ids0"
  by (simp add: remove_images_without_annotations_def remove_images_loop_filter)

lemma has_valid_annotation_iff:
  "has_valid_annotation anno \<longleftrightarrow> anno \<noteq> [] \<and> 1000 < sum_list (map area anno)"
  by (simp add: has_valid_annotation_def)

text \<open>
  Claim C4 as stated fails when the permitted category list is empty: constructed with
  \<^verbatim>\<open>num_classes=0\<close>, the guard \<^verbatim>\<open>if self.categories:\<close> skips the category filter, and image 8
  of the example is retained although none of its annotations has a permitted category.
\<close>

theorem validity_filter_counterexample:
  "8 \<in> set (remove_images_without_annotations (py_range 1 (0 + 1)) ex_coco (getImgIds ex_coco))
   \<and> filter (\<lambda>obj. category_id obj \<in> set (py_range 1 (0 + 1))) (annsOf ex_coco 8) = []"
  by (simp add: remove_images_filter has_valid_annotation_iff filtered_for_validity_def
      py_range_def ex_coco_def ex_anns_def)

text \<open>
  Claim C4, amended. With a non-empty permitted category list (\<open>1 \<le> N\<close>), an enumerated
  image id is retained if and only if its annotations of a permitted category are not none
  and their areas sum to more than 1000; with an empty list (\<open>N < 1\<close>) the same test is
  made on all its annotations. In both cases an image is excluded when the areas of the
  annotations tested sum to 1000 or less, and the retained ids keep their order.
\<close>

theorem validity_filter:
  fixes N :: int
  shows "(1 \<le> N \<longrightarrow>
            (img_id \<in> set (remove_images_without_annotations (py_range 1 (N + 1)) ds ids0) \<longleftrightarrow>
               img_id \<in> set ids0
               \<and> filter (\<lambda>obj. category_id obj \<in> {1..N}) (annsOf ds img_id) \<noteq> []
               \<and> 1000 < sum_list (map area
                          (filter (\<lambda>obj. category_id obj \<in> {1..N}) (annsOf ds img_id)))))
    \<and> (N < 1 \<longrightarrow>
            (img_id \<in> set (remove_images_without_annotations (py_range 1 (N + 1)) ds ids0) \<longleftrightarrow>
               img_id \<in> set ids0 \<and> annsOf ds img_id \<noteq> []
               \<and> 1000 < sum_list (map area (annsOf ds img_id))))
    \<and> remove_images_without_annotations (py_range 1 (N + 1)) ds ids0 =
         filter (\<lambda>i. i \<in> set (remove_images_without_annotations (py_range 1 (N + 1)) ds ids0)) ids0"
proof (intro conjI impI)
  assume "1 \<le> N"
  then have "py_range 1 (N + 1) \<noteq> []" by (simp add: py_range_empty_iff)
  then show "img_id \<in> set (remove_images_without_annotations (py_range 1 (N + 1)) ds ids0) \<longleftrightarrow>
      img_id \<in> set ids0
      \<and> filter (\<lambda>obj. category_id obj \<in> {1..N}) (annsOf ds img_id) \<noteq> []
      \<and> 1000 < sum_list (map area (filter (\<lambda>obj. category_id obj \<in> {1..N}) (annsOf ds img_id)))"
    by (simp add: remove_images_filter has_valid_annotation_iff filtered_for_validity_def
        set_py_range_1)
next
  assume "N < 1"
  then have "py_range 1 (N + 1) = []" by (simp add: py_range_empty_iff)
  then show "img_id \<in> set (remove_images_without_annotations (py_range 1 (N + 1)) ds ids0) \<longleftrightarrow>
      img_id \<in> set ids0 \<and> annsOf ds img_id \<noteq> []
      \<and> 1000 < sum_list (map area (annsOf ds img_id))"
    by (simp add: remove_images_filter has_valid_annotation_iff filtered_for_validity_def)
next
  show "remove_images_without_annotations (py_range 1 (N + 1)) ds ids0 =
      filter (\<lambda>i. i \<in> set (remove_images_without_annotations (py_range 1 (N + 1)) ds ids0)) ids0"
    unfolding remove_images_filter by (rule filter_cong) auto
qed

theorem validity_filter_witness:
  "(1::int) \<le> 4
   \<and> 7 \<in> set (remove_images_without_annotations (py_range 1 (4 + 1)) ex_coco (getImgIds ex_coco))
   \<and> 8 \<notin> set (remove_images_without_annotations (py_range 1 (4 + 1)) ex_coco (getImgIds ex_coco))
   \<and> (0::int) < 1
   \<and> 8 \<in> set (remove_images_without_annotations (py_range 1 (0 + 1)) ex_coco (getImgIds ex_coco))"
proof -
  have a: "7 \<in> set (remove_images_without_annotations (py_range 1 (4 + 1)) ex_coco (getImgIds ex_coco))"
    using validity_filter[of 4 7 ex_coco "getImgIds ex_coco"]
    by (simp add: ex_coco_def ex_anns_def)
  have b: "8 \<notin> set (remove_images_without_annotations (py_range 1 (4 + 1)) ex_coco (getImgIds ex_coco))"
    using validity_filter[of 4 8 ex_coco "getImgIds ex_coco"]
    by (simp add: ex_coco_def ex_anns_def)
  have c: "8 \<in> set (remove_images_without_annotations (py_range 1 (0 + 1)) ex_coco (getImgIds ex_coco))"
    using validity_filter[of 0 8 ex_coco "getImgIds ex_coco"]
    by (simp add: ex_coco_def ex_anns_def)
  from a b c show ?thesis by simp
qed

subsection \<open>Merging the instance masks\<close>


lemma map_map_tabulate2: "map (map g) (tabulate2 h w f) = tabulate2 h w (\<lambda>y x. g (f y x))"
  by (simp add: tabulate2_def comp_def)

lemma map2_same_index: "map2 g (map f1 xs) (map f2 xs) = map (\<lambda>x. g (f1 x) (f2 x)) xs"
  by (induction xs) simp_all

lemma map2_tabulate2:
  "map2 (map2 g) (tabulate2 h w f1) (tabulate2 h w f2) = tabulate2 h w (\<lambda>y x. g (f1 y x) (f2 y x))"
  by (simp add: tabulate2_def map2_same_index)

lemma foldl_max_tabulate2:
  "foldl (map2 (map2 max)) (tabulate2 h w f) (map (tabulate2 h w) fs) =
     tabulate2 h w (\<lambda>y x. foldl max (f y x) (map (\<lambda>g. g y x) fs))"
  by (induction fs arbitrary: f) (simp_all add: map2_tabulate2)

lemma foldl_max_Max: "foldl max (a::'a::linorder) xs = Max (set (a # xs))"
proof (induction xs arbitrary: a)
  case Nil then show ?case by simp
next
  case (Cons x xs)
  have "foldl max a (x # xs) = Max (set (max a x # xs))" using Cons.IH by simp
  also have "\<dots> = Max (set (a # x # xs))"
    by (cases "xs = []") (simp_all add: max.assoc)
  finally show ?case .
qed

lemma convert_poly_to_mask_tab:
  "convert_poly_to_mask decode segs h w = map (\<lambda>p. tabulate2 h w (instance_bit decode h w p)) segs"
  by (simp add: convert_poly_to_mask_def any_axis2_def astype_uint8_def map_map_tabulate2
      instance_bit_def[abs_def] Let_def)

lemma scaled_layers:
  "map2 (\<lambda>m c. map (map (\<lambda>v. v * c)) m) (map (\<lambda>p. tabulate2 h w (bf p)) (map sg anno)) (map ct anno)
    = map (tabulate2 h w) (map (\<lambda>obj y x. bf (sg obj) y x * ct obj) anno)"
  by (induction anno) (simp_all add: map_map_tabulate2)

lemma max_axis0_layers:
  assumes "fs \<noteq> []"
  shows "max_axis0 (map (tabulate2 h w) fs) =
           Inr (tabulate2 h w (\<lambda>y x. Max (set (map (\<lambda>g. g y x) fs))))"
proof -
  obtain f rest where fs: "fs = f # rest" using assms by (cases fs) auto
  show ?thesis by (simp add: fs foldl_max_tabulate2 foldl_max_Max del: set_simps)
qed

lemma convert_polys_to_mask_Max:
  assumes "anno \<noteq> []" "im_size img = (w, h)"
  shows "convert_polys_to_mask decode img anno =
     Inr (img, tabulate2 h w (\<lambda>y x. Max (set (map (\<lambda>obj. instance_bit decode h w (segmentation obj) y x
                 * word_of_int (category_id obj)) anno))))"
proof -
  let ?fs = "map (\<lambda>obj y x. instance_bit decode h w (segmentation obj) y x * word_of_int (category_id obj)) anno"
  have layers: "map2 (\<lambda>m c. map (map (\<lambda>v. v * c)) m)
          (convert_poly_to_mask decode (map segmentation anno) h w)
          (map word_of_int (map category_id anno)) = map (tabulate2 h w) ?fs"
    unfolding convert_poly_to_mask_tab
    using scaled_layers[of h w "instance_bit decode h w" segmentation anno "\<lambda>obj. word_of_int (category_id obj)"]
    by (simp add: comp_def)
  have ne: "?fs \<noteq> []" using assms(1) by simp
  have "max_axis0 (map (tabulate2 h w) ?fs) =
     Inr (tabulate2 h w (\<lambda>y x. Max (set (map (\<lambda>g. g y x) ?fs))))"
    by (rule max_axis0_layers[OF ne])
  then show ?thesis
    unfolding convert_polys_to_mask_def
    using assms layers by (simp add: Let_def comp_def)
qed

lemma convert_polys_to_mask_empty:
  "im_size img = (w, h) \<Longrightarrow> convert_polys_to_mask decode img [] = Inr (img, replicate h (replicate w 0))"
  by (simp add: convert_polys_to_mask_def tabulate2_def map_replicate_const)

lemma convert_polys_to_mask_total:
  "\<exists>target. convert_polys_to_mask decode img anno = Inr (img, target)"
proof (cases "anno = []")
  case True
  then show ?thesis
    using convert_polys_to_mask_empty[of img "fst (im_size img)" "snd (im_size img)" decode] by simp
next
  case False
  then show ?thesis
    using convert_polys_to_mask_Max[of anno img "fst (im_size img)" "snd (im_size img)" decode] by simp
qed








subsection \<open>Fetching a sample\<close>

lemma getitem_with_label_Inr:
  assumes "getitem_with_label libs self idx = Inr (arr, target)"
  obtains path img img_id anno where
    "py_get (imgs self) idx = Inr path" "image_open libs path = Some img"
    "py_get (img_ids self) idx = Inr img_id"
    "filter_and_remap_categories (categories self) img
        (annsOf (tiscape_dataset self) img_id) True = Inr (img, anno)"
    "convert_polys_to_mask (coco_decode libs) img anno = Inr (img, target)"
    "arr = (if ndim (as_array img) = 2 \<or> channels (as_array img) = 1
            then cvtColor_GRAY2RGB (as_array img) else as_array img)"
proof -
  from assms obtain path where p: "py_get (imgs self) idx = Inr path"
    by (auto simp: getitem_with_label_def split: sum.splits)
  from assms p obtain img where i: "image_open libs path = Some img"
    by (auto simp: getitem_with_label_def split: sum.splits option.splits)
  from assms p i obtain img_id where d: "py_get (img_ids self) idx = Inr img_id"
    by (auto simp: getitem_with_label_def split: sum.splits)
  from assms p i d obtain img' anno where
    f: "filter_and_remap_categories (categories self) img
        (annsOf (tiscape_dataset self) img_id) True = Inr (img', anno)"
    by (auto simp: getitem_with_label_def Let_def split: sum.splits)
  from filter_and_remap_spec[OF f] have e: "img' = img" by simp
  from convert_polys_to_mask_total[of "coco_decode libs" img anno]
  obtain t where c: "convert_polys_to_mask (coco_decode libs) img anno = Inr (img, t)" by blast
  from assms p i d f e c
  have "arr = (if ndim (as_array img) = 2 \<or> channels (as_array img) = 1
            then cvtColor_GRAY2RGB (as_array img) else as_array img)" "t = target"
    by (simp_all add: getitem_with_label_def Let_def)
  with p i d f e c that show thesis by blast
qed

lemma getitem_with_label_eq:
  assumes "py_get (imgs self) idx = Inr path" "image_open libs path = Some img"
    "py_get (img_ids self) idx = Inr img_id"
    "filter_and_remap_categories (categories self) img
        (annsOf (tiscape_dataset self) img_id) True = Inr (img, anno)"
    "convert_polys_to_mask (coco_decode libs) img anno = Inr (img, target)"
  shows "getitem_with_label libs self idx =
     Inr (if ndim (as_array img) = 2 \<or> channels (as_array img) = 1
            then cvtColor_GRAY2RGB (as_array img) else as_array img, target)"
  using assms by (simp add: getitem_with_label_def Let_def)


subsection \<open>The example dataset, evaluated\<close>

lemma py_range_1_5: "py_range 1 5 = [1, 2, 3, 4]"
  by (simp add: py_range_def upto_rec1)

lemma ex_init_gen:
  assumes "dirs fs ''r'' = Some [''annotations'', ''images'']"
    and "files fs (''r/annotations/stuff_'' @ split @ ''.json'') \<noteq> None"
  shows "init ex_libs fs ''r'' split 0 None (Some 4) [(''annotation_prefix'', ''stuff'')]
           = Inr ex_dataset"
  using assms
  by (simp add: init_def ex_libs_def os_listdir_def os_path_join_def
      remove_images_filter has_valid_annotation_iff filtered_for_validity_def
      ex_coco_def ex_anns_def ex_dataset_def py_range_1_5)

lemma ex_init:
  "init ex_libs ex_fs ''r'' ''train'' 0 None (Some 4) [(''annotation_prefix'', ''stuff'')]
     = Inr ex_dataset"
  by (rule ex_init_gen) (simp_all add: ex_fs_def)

lemma ex_libs_palette: "get_color_palette ex_libs = ex_palette"
  by (simp add: ex_libs_def)

lemma ex_plus_init_gen:
  assumes "dirs fs ''r'' = Some [''annotations'', ''images'']"
    and "files fs (''r/annotations/stuff_'' @ split @ ''.json'') \<noteq> None"
  shows "plus_init ex_libs fs ''r'' split 0 None (Some n) None [(''annotation_prefix'', ''stuff'')]
     = Inr (ex_plus n)"
  by (simp add: plus_init_def NUM_CLASSES_def ex_init_gen[OF assms] ex_plus_def Let_def
      ex_libs_palette)

lemma ex_plus_init:
  "plus_init ex_libs ex_fs ''r'' ''train'' 0 None (Some n) None [(''annotation_prefix'', ''stuff'')]
     = Inr (ex_plus n)"
  by (rule ex_plus_init_gen) (simp_all add: ex_fs_def)

lemmas ex_eval = getitem_with_label_def py_get_def ex_libs_def ex_coco_def
      ex_anns_def filter_and_remap_categories_def remap_category_def
      convert_polys_to_mask_def ex_image_def ex_image_grey_def ex_image_rgba_def
      convert_poly_to_mask_def any_axis2_def
      astype_uint8_def tabulate2_def expand_last_def ex_decode_def ndim_def channels_def
      cvtColor_GRAY2RGB_def Let_def upt_rec

lemma ex_getitem_0:
  "getitem_with_label ex_libs ex_dataset 0 = Inr (Arr3 3 [[[10, 20, 30], [40, 50, 60]]], [[2, 3]])"
  by (simp add: ex_eval ex_dataset_def)

lemma ex_getitem_1:
  "getitem_with_label ex_libs ex_dataset 1 = Inr (Arr3 3 [[[10, 10, 10], [40, 40, 40]]], [[4, 0]])"
  by (simp add: ex_eval ex_dataset_def)

lemma ex_plus_base [simp]:
  "categories (ex_plus n) = [1,2,3,4]" "imgs (ex_plus n) = [''r/images/a.png'', ''r/images/c.png'', ''r/images/d.png'']"
  "img_ids (ex_plus n) = [7, 9, 10]" "tiscape_dataset (ex_plus n) = ex_coco"
  "transforms (ex_plus n) = None" "num_classes_field (ex_plus n) = n"
  by (simp_all add: ex_plus_def ex_dataset_def tiscape_segmentation.defs tiscape_segmentation_plus.defs)

lemma ex_plus_getitem_label_1:
  "getitem_with_label ex_libs (ex_plus n) 1 = Inr (Arr3 3 [[[10, 10, 10], [40, 40, 40]]], [[4, 0]])"
  by (simp add: ex_eval)

lemma ex_plus_getitem_1:
  "plus_getitem ex_libs (ex_plus n) 1 = Inr ([Arr3 3 [[[10, 10, 10], [40, 40, 40]]]], [[[3, 255]]])"
  by (simp add: plus_getitem_def ex_plus_getitem_label_1 py_get_def setitem_bool_def isub_bool_def
      list_eq_int_def list_ne_int_def)

subsection \<open>The ignore-label shift\<close>

lemma u8_decrement: "(v::u8) \<noteq> 0 \<Longrightarrow> uint (v - 1) = uint v - 1"
  using uint_minus_simple_alt word_le_sub1 by force

lemma u8_shift: "(v::u8) - 1 = (if v = 0 then 255 else v - 1)"
  by simp

lemma plus_getitem_None:
  assumes "transforms self = None"
  shows "plus_getitem libs self idx =
      (case getitem_with_label libs self idx of
         Inl e \<Rightarrow> Inl e
       | Inr (img, target) \<Rightarrow>
           Inr ([img], [map (map (\<lambda>v. if v = 0 then 255 else v - 1)) target]))"
proof -
  have "map (map (\<lambda>v::u8. v - 1)) t = map (map (\<lambda>v. if v = 0 then 255 else v - 1)) t" for t
    by (rule arg_cong[where f = "\<lambda>f. map (map f) t"]) (rule ext, simp)
  then show ?thesis
    using assms
    by (auto simp: plus_getitem_def py_get_def setitem_bool_def isub_bool_def list_eq_int_def
        list_ne_int_def split: sum.splits)
qed

text \<open>
  Claim C2. Without transforms, \<^verbatim>\<open>TIScapeSegmentationPlus.__getitem__\<close> returns the image and
  the mask of the base class in one-element lists, every mask value 0 replaced by 255 and
  every other value \<open>v\<close> by \<open>v - 1\<close>, which for \<open>v \<noteq> 0\<close> is the integer \<open>v - 1\<close>; it fails
  exactly when the base class does. (Lines 165-166 subtract 1 from every pixel in \<^verbatim>\<open>uint8\<close>,
  where 0 wraps around to 255.)
\<close>

theorem plus_getitem_shift:
  assumes "transforms self = None"
  shows "plus_getitem libs self idx =
      (case getitem_with_label libs self idx of
         Inl e \<Rightarrow> Inl e
       | Inr (img, target) \<Rightarrow>
           Inr ([img], [map (map (\<lambda>v. if v = 0 then 255 else v - 1)) target]))
    \<and> (\<forall>v::u8. v \<noteq> 0 \<longrightarrow> uint (v - 1) = uint v - 1)"
  using plus_getitem_None[OF assms] u8_decrement by blast

theorem plus_getitem_shift_witness:
  "transforms (ex_plus 4) = None
   \<and> getitem_with_label ex_libs (ex_plus 4) 1 = Inr (Arr3 3 [[[10, 10, 10], [40, 40, 40]]], [[4, 0]])
   \<and> plus_getitem ex_libs (ex_plus 4) 1 = Inr ([Arr3 3 [[[10, 10, 10], [40, 40, 40]]]], [[[3, 255]]])"
proof -
  have t: "transforms (ex_plus 4) = None" by simp
  from plus_getitem_shift[OF t, of ex_libs 1] t show ?thesis
    by (simp add: ex_plus_getitem_label_1)
qed

text \<open>
  Claim C9. When no annotation of the image has a permitted category,
  \<^verbatim>\<open>_convert_polys_to_mask\<close> returns the all-zero \<^verbatim>\<open>uint8\<close> mask of shape (height, width), so does
  the base \<^verbatim>\<open>__getitem__\<close>, and \<^verbatim>\<open>TIScapeSegmentationPlus.__getitem__\<close> (no transforms) returns
  the mask that is 255 everywhere.
\<close>

theorem empty_annotations_all_ignore:
  assumes "transforms self = None"
    and "py_get (imgs self) idx = Inr path" "image_open libs path = Some img"
    and "py_get (img_ids self) idx = Inr img_id"
    and "filter (\<lambda>obj. category_id obj \<in> set (categories self))
           (annsOf (tiscape_dataset self) img_id) = []"
    and "im_size img = (w, h)"
  shows "convert_polys_to_mask (coco_decode libs) img [] = Inr (img, replicate h (replicate w 0))
    \<and> getitem_with_label libs self idx =
        Inr (if ndim (as_array img) = 2 \<or> channels (as_array img) = 1
             then cvtColor_GRAY2RGB (as_array img) else as_array img,
             replicate h (replicate w 0))
    \<and> plus_getitem libs self idx =
        Inr ([if ndim (as_array img) = 2 \<or> channels (as_array img) = 1
              then cvtColor_GRAY2RGB (as_array img) else as_array img],
             [replicate h (replicate w 255)])"
proof -
  have c: "convert_polys_to_mask (coco_decode libs) img [] = Inr (img, replicate h (replicate w 0))"
    by (rule convert_polys_to_mask_empty[OF assms(6)])
  have f: "filter_and_remap_categories (categories self) img
        (annsOf (tiscape_dataset self) img_id) True = Inr (img, [])"
    using assms(5) by (simp add: filter_and_remap_categories_def)
  have g: "getitem_with_label libs self idx =
        Inr (if ndim (as_array img) = 2 \<or> channels (as_array img) = 1
             then cvtColor_GRAY2RGB (as_array img) else as_array img,
             replicate h (replicate w 0))"
    by (rule getitem_with_label_eq[OF assms(2,3,4) f c])
  have p: "plus_getitem libs self idx =
        Inr ([if ndim (as_array img) = 2 \<or> channels (as_array img) = 1
              then cvtColor_GRAY2RGB (as_array img) else as_array img],
             [replicate h (replicate w 255)])"
    using plus_getitem_None[OF assms(1), of libs idx] by (simp add: g)
  from c g p show ?thesis by blast
qed

theorem empty_annotations_all_ignore_witness:
  "transforms ex_unlabelled = None
   \<and> py_get (imgs ex_unlabelled) 0 = Inr ''r/images/b.png''
   \<and> image_open ex_libs ''r/images/b.png'' = Some ex_image
   \<and> py_get (img_ids ex_unlabelled) 0 = Inr 8
   \<and> filter (\<lambda>obj. category_id obj \<in> set (categories ex_unlabelled))
         (annsOf (tiscape_dataset ex_unlabelled) 8) = []
   \<and> im_size ex_image = (2, 1)
   \<and> plus_getitem ex_libs ex_unlabelled 0 = Inr ([Arr3 3 [[[10, 20, 30], [40, 50, 60]]]], [[[255, 255]]])"
proof -
  have 1: "transforms ex_unlabelled = None" by (simp add: ex_unlabelled_def)
  have 2: "py_get (imgs ex_unlabelled) 0 = Inr ''r/images/b.png''"
    by (simp add: ex_unlabelled_def py_get_def)
  have 3: "image_open ex_libs ''r/images/b.png'' = Some ex_image" by (simp add: ex_libs_def)
  have 4: "py_get (img_ids ex_unlabelled) 0 = Inr 8" by (simp add: ex_unlabelled_def py_get_def)
  have 5: "filter (\<lambda>obj. category_id obj \<in> set (categories ex_unlabelled))
         (annsOf (tiscape_dataset ex_unlabelled) 8) = []"
    by (simp add: ex_unlabelled_def ex_coco_def ex_anns_def)
  have 6: "im_size ex_image = (2, 1)" by (simp add: ex_image_def)
  from empty_annotations_all_ignore[OF 1 2 3 4 5 6]
  have "plus_getitem ex_libs ex_unlabelled 0 = Inr ([Arr3 3 [[[10, 20, 30], [40, 50, 60]]]], [[[255, 255]]])"
    by (simp add: ex_image_def ndim_def channels_def numeral_2_eq_2)
  with 1 2 3 4 5 6 show ?thesis by (intro conjI)
qed

text \<open>
  Claim C10 as stated fails for a decoded image with four channels (an RGBA file): it is
  returned as it is, with four channels.
\<close>

theorem image_channels_counterexample:
  "getitem_with_label ex_libs ex_dataset 2 =
     Inr (Arr3 4 [[[10, 20, 30, 255], [40, 50, 60, 255]]], [[0, 1]])
   \<and> channels (Arr3 4 [[[10, 20, 30, 255], [40, 50, 60, 255]]]) = 4"
  by (simp add: ex_eval ex_dataset_def)

text \<open>
  Claim C10, amended. The image array returned with a label is 3-dimensional; a decoded
  image that is 2-dimensional or has a single channel is converted to three channels, any
  other image is returned unchanged, so the result has three channels exactly when the
  decoded image is 2-dimensional or has one or three channels.
\<close>

theorem image_channels:
  assumes "getitem_with_label libs self idx = Inr (arr, target)"
  shows "\<exists>path img. py_get (imgs self) idx = Inr path \<and> image_open libs path = Some img
     \<and> arr = (if ndim (as_array img) = 2 \<or> channels (as_array img) = 1
              then cvtColor_GRAY2RGB (as_array img) else as_array img)
     \<and> ndim arr = 3
     \<and> (ndim (as_array img) = 2 \<or> channels (as_array img) = 1 \<longrightarrow> channels arr = 3)
     \<and> (channels arr = 3 \<longleftrightarrow>
           ndim (as_array img) = 2 \<or> channels (as_array img) = 1 \<or> channels (as_array img) = 3)"
proof -
  from assms obtain path img where
    g: "py_get (imgs self) idx = Inr path" "image_open libs path = Some img"
    and a: "arr = (if ndim (as_array img) = 2 \<or> channels (as_array img) = 1
              then cvtColor_GRAY2RGB (as_array img) else as_array img)"
    by (rule getitem_with_label_Inr)
  have "ndim arr = 3
     \<and> (ndim (as_array img) = 2 \<or> channels (as_array img) = 1 \<longrightarrow> channels arr = 3)
     \<and> (channels arr = 3 \<longleftrightarrow>
           ndim (as_array img) = 2 \<or> channels (as_array img) = 1 \<or> channels (as_array img) = 3)"
    unfolding a
    by (cases "as_array img") (auto simp: ndim_def channels_def cvtColor_GRAY2RGB_def)
  with g a show ?thesis by blast
qed

theorem image_channels_witness:
  "getitem_with_label ex_libs ex_dataset 1 = Inr (Arr3 3 [[[10, 10, 10], [40, 40, 40]]], [[4, 0]])
   \<and> image_open ex_libs ''r/images/c.png'' = Some ex_image_grey
   \<and> ndim (as_array ex_image_grey) = 2
   \<and> channels (Arr3 3 [[[10, 10, 10], [40, 40, 40]]]) = 3"
proof -
  have g: "getitem_with_label ex_libs ex_dataset 1 = Inr (Arr3 3 [[[10, 10, 10], [40, 40, 40]]], [[4, 0]])"
    by (simp add: ex_eval ex_dataset_def)
  have o: "image_open ex_libs ''r/images/c.png'' = Some ex_image_grey" by (simp add: ex_libs_def)
  have n: "ndim (as_array ex_image_grey) = 2" by (simp add: ex_image_grey_def ndim_def)
  from image_channels[OF g] obtain path img where
    "py_get (imgs ex_dataset) 1 = Inr path" "image_open ex_libs path = Some img"
    "ndim (as_array img) = 2 \<or> channels (as_array img) = 1 \<longrightarrow>
       channels (Arr3 3 [[[10, 10, 10], [40, 40, 40]]]) = 3"
    by blast
  with o n have "channels (Arr3 3 [[[10, 10, 10], [40, 40, 40]]]) = 3"
    by (simp add: ex_dataset_def py_get_def)
  with g o n show ?thesis by (intro conjI)
qed

text \<open>
  Claim C5 at a failing input. The wrapping class hands \<open>num_classes = 4\<close> to the base class
  whatever class count is configured, and the modulo its comment announces (line 159) is
  commented out. Configured with three classes, the example's image 9 (one annotation of
  category 4) gets the mask value 4, outside \<open>{0..3}\<close>, and the target value 3, outside
  \<open>{255, 0..2}\<close>.
\<close>

theorem configured_class_count_exceeded:
  "plus_init ex_libs ex_fs ''r'' ''train'' 0 None (Some 3) None [(''annotation_prefix'', ''stuff'')]
      = Inr (ex_plus 3)
   \<and> num_classes_of (ex_plus 3) = [3]
   \<and> categories (ex_plus 3) = [1, 2, 3, 4]
   \<and> getitem_with_label ex_libs (ex_plus 3) 1 = Inr (Arr3 3 [[[10, 10, 10], [40, 40, 40]]], [[4, 0]])
   \<and> plus_getitem ex_libs (ex_plus 3) 1 = Inr ([Arr3 3 [[[10, 10, 10], [40, 40, 40]]]], [[[3, 255]]])"
  by (simp add: ex_plus_init ex_plus_getitem_label_1 ex_plus_getitem_1 num_classes_of_def)


subsection \<open>Category ids beyond the range of a byte\<close>






subsection \<open>Writing the split files\<close>

lemma open_append_write_error: "open_append_write fs p txt = Inl e \<Longrightarrow> e = OSError"
  by (auto simp: open_append_write_def split: option.splits if_splits)

lemma write_to_jsonfile_error:
  "write_to_jsonfile libs fs path filename data = Inl e \<Longrightarrow> e = OSError"
  by (auto simp: write_to_jsonfile_def Let_def split: if_splits dest: open_append_write_error)

lemma open_append_write_other:
  "open_append_write fs p txt = Inr fs' \<Longrightarrow> q \<noteq> p \<Longrightarrow> files fs' q = files fs q"
  by (auto simp: open_append_write_def split: option.splits if_splits)

lemma open_append_write_dirs:
  "open_append_write fs p txt = Inr fs' \<Longrightarrow> q \<noteq> dirname p \<Longrightarrow> dirs fs' q = dirs fs q"
  by (auto simp: open_append_write_def split: option.splits if_splits)

lemma ex_write_val:
  "write_to_jsonfile ex_libs ex_fs ''r/annotations'' ''stuff_val'' ''V'' = Inr ex_fs_after"
  by (simp add: write_to_jsonfile_def os_path_isfile_def open_append_write_def ex_fs_def
      ex_fs_after_def ex_libs_def dirname_def basename_def)

text \<open>
  Claim C8. With \<open>p\<close> the path \<^verbatim>\<open>path + '/' + filename + '.json'\<close>: when \<open>p\<close> is a readable
  regular file, \<^verbatim>\<open>write_to_jsonfile\<close> returns with the file system as it was, so nothing is
  written and the contents of \<open>p\<close> are unchanged; whenever it returns with a changed file
  system, \<open>p\<close> was absent or unreadable; no other file is ever touched. When \<open>p\<close> is absent
  and its directory exists, the file is created and holds the dumped data; when \<open>p\<close>
  exists, unreadable but writable, the dumped data is appended to it.
\<close>

theorem write_to_jsonfile_frame:
  "(os_path_isfile fs (path @ ''/'' @ filename @ ''.json'')
      \<and> os_access_R_OK fs (path @ ''/'' @ filename @ ''.json'')
      \<longrightarrow> write_to_jsonfile libs fs path filename data = Inr fs)
   \<and> (\<forall>fs'. write_to_jsonfile libs fs path filename data = Inr fs' \<and> fs' \<noteq> fs \<longrightarrow>
         \<not> (os_path_isfile fs (path @ ''/'' @ filename @ ''.json'')
            \<and> os_access_R_OK fs (path @ ''/'' @ filename @ ''.json'')))
   \<and> (\<forall>fs' q. write_to_jsonfile libs fs path filename data = Inr fs'
         \<and> q \<noteq> path @ ''/'' @ filename @ ''.json'' \<longrightarrow> files fs' q = files fs q)
   \<and> (\<forall>names. files fs (path @ ''/'' @ filename @ ''.json'') = None
         \<and> dirs fs (path @ ''/'' @ filename @ ''.json'') = None
         \<and> dirs fs (dirname (path @ ''/'' @ filename @ ''.json'')) = Some names \<longrightarrow>
         (\<exists>fs'. write_to_jsonfile libs fs path filename data = Inr fs'
            \<and> files fs' (path @ ''/'' @ filename @ ''.json'') =
                Some \<lparr>readable = True, writable = True, content = json_dump libs data\<rparr>))
   \<and> (\<forall>f. files fs (path @ ''/'' @ filename @ ''.json'') = Some f \<and> \<not> readable f \<and> writable f \<longrightarrow>
         (\<exists>fs'. write_to_jsonfile libs fs path filename data = Inr fs'
            \<and> files fs' (path @ ''/'' @ filename @ ''.json'') =
                Some (f\<lparr>content := content f @ json_dump libs data\<rparr>)))"
proof (intro conjI allI impI)
  let ?p = "path @ ''/'' @ filename @ ''.json''"
  show "write_to_jsonfile libs fs path filename data = Inr fs"
    if "os_path_isfile fs ?p \<and> os_access_R_OK fs ?p"
    using that by (simp add: write_to_jsonfile_def)
  show "\<not> (os_path_isfile fs ?p \<and> os_access_R_OK fs ?p)"
    if "write_to_jsonfile libs fs path filename data = Inr fs' \<and> fs' \<noteq> fs" for fs'
    using that by (auto simp: write_to_jsonfile_def)
  show "files fs' q = files fs q"
    if "write_to_jsonfile libs fs path filename data = Inr fs' \<and> q \<noteq> ?p" for fs' q
    using that
    by (auto simp: write_to_jsonfile_def Let_def split: if_splits dest: open_append_write_other)
  show "\<exists>fs'. write_to_jsonfile libs fs path filename data = Inr fs'
            \<and> files fs' ?p = Some \<lparr>readable = True, writable = True, content = json_dump libs data\<rparr>"
    if "files fs ?p = None \<and> dirs fs ?p = None \<and> dirs fs (dirname ?p) = Some names" for names
    using that
    by (simp add: write_to_jsonfile_def os_path_isfile_def open_append_write_def Let_def)
  show "\<exists>fs'. write_to_jsonfile libs fs path filename data = Inr fs'
            \<and> files fs' ?p = Some (f\<lparr>content := content f @ json_dump libs data\<rparr>)"
    if "files fs ?p = Some f \<and> \<not> readable f \<and> writable f" for f
    using that
    by (simp add: write_to_jsonfile_def os_path_isfile_def os_access_R_OK_def
        open_append_write_def Let_def)
qed

theorem write_to_jsonfile_frame_witness:
  "os_path_isfile ex_fs (''r/annotations'' @ ''/'' @ ''stuff_train'' @ ''.json'')
   \<and> os_access_R_OK ex_fs (''r/annotations'' @ ''/'' @ ''stuff_train'' @ ''.json'')
   \<and> write_to_jsonfile ex_libs ex_fs ''r/annotations'' ''stuff_train'' ''X'' = Inr ex_fs
   \<and> write_to_jsonfile ex_libs ex_fs ''r/annotations'' ''stuff_val'' ''V'' = Inr ex_fs_after
   \<and> ex_fs_after \<noteq> ex_fs
   \<and> \<not> os_path_isfile ex_fs (''r/annotations'' @ ''/'' @ ''stuff_val'' @ ''.json'')
   \<and> files ex_fs_after ''r/annotations/stuff_train.json'' = files ex_fs ''r/annotations/stuff_train.json''"
proof -
  have 1: "os_path_isfile ex_fs (''r/annotations'' @ ''/'' @ ''stuff_train'' @ ''.json'')"
    by (simp add: os_path_isfile_def ex_fs_def)
  have 2: "os_access_R_OK ex_fs (''r/annotations'' @ ''/'' @ ''stuff_train'' @ ''.json'')"
    by (simp add: os_access_R_OK_def ex_fs_def)
  have 3: "write_to_jsonfile ex_libs ex_fs ''r/annotations'' ''stuff_train'' ''X'' = Inr ex_fs"
    using write_to_jsonfile_frame[of ex_fs "''r/annotations''" "''stuff_train''" ex_libs "''X''"] 1 2
    by blast
  have 4: "write_to_jsonfile ex_libs ex_fs ''r/annotations'' ''stuff_val'' ''V'' = Inr ex_fs_after"
    by (rule ex_write_val)
  have 5: "''r/annotations/stuff_train.json'' \<noteq> ''r/annotations'' @ ''/'' @ ''stuff_val'' @ ''.json''"
    by simp
  have 6: "files ex_fs_after ''r/annotations/stuff_train.json'' = files ex_fs ''r/annotations/stuff_train.json''"
    using write_to_jsonfile_frame[of ex_fs "''r/annotations''" "''stuff_val''" ex_libs "''V''"] 4 5
    by blast
  have "files ex_fs_after ''r/annotations/stuff_val.json'' \<noteq> files ex_fs ''r/annotations/stuff_val.json''"
    by (simp add: ex_fs_after_def ex_fs_def)
  then have 7: "ex_fs_after \<noteq> ex_fs" by auto
  have 8: "\<not> os_path_isfile ex_fs (''r/annotations'' @ ''/'' @ ''stuff_val'' @ ''.json'')"
    by (simp add: os_path_isfile_def ex_fs_def)
  from 1 2 3 4 7 8 6 show ?thesis by (intro conjI)
qed

subsection \<open>Assertions raised at construction\<close>

lemma lookup_all_error: "lookup_all d ks = Inl e \<Longrightarrow> e = KeyError"
  by (induction ks arbitrary: e) (auto split: option.splits sum.splits)

lemma init_assertion:
  "init libs fs root_dir split shuffle num_imgs_arg num_classes kwargs = Inl (AssertionError msg)
     \<longleftrightarrow> msg = ''Invalid path to TI scape dataset annotations''
         \<and> map_of kwargs ''annotation_prefix'' \<noteq> None
         \<and> (\<exists>names. dirs fs root_dir = Some names \<and> ''annotations'' \<notin> set names)"
  by (auto simp: init_def Let_def os_listdir_def
      split: option.splits sum.splits if_splits prod.splits dest: lookup_all_error)

lemma plus_init_assertion:
  "plus_init libs fs root_dir split shuffle num_imgs_arg num_classes tr kwargs
       = Inl (AssertionError msg)
     \<longleftrightarrow> msg = ''Invalid path to TI scape dataset annotations''
         \<and> map_of kwargs ''annotation_prefix'' \<noteq> None
         \<and> (\<exists>names. dirs fs root_dir = Some names \<and> ''annotations'' \<notin> set names)"
proof -
  have "plus_init libs fs root_dir split shuffle num_imgs_arg num_classes tr kwargs
       = Inl (AssertionError msg) \<longleftrightarrow>
     init libs fs root_dir split shuffle num_imgs_arg
        (Some (if (case num_classes of None \<Rightarrow> NUM_CLASSES | Some n \<Rightarrow> n) = 4
               then (case num_classes of None \<Rightarrow> NUM_CLASSES | Some n \<Rightarrow> n) else NUM_CLASSES))
        kwargs = Inl (AssertionError msg)"
    by (simp add: plus_init_def Let_def split: sum.splits)
  then show ?thesis by (simp only: init_assertion)
qed

lemma dirname_extends:
  "\<exists>s. dirname (path @ ''/'' @ rest) = path @ s"
proof (cases "\<forall>c\<in>set rest. c \<noteq> CHR ''/''")
  case True
  have "dropWhile (\<lambda>c. c \<noteq> CHR ''/'') (rev rest @ CHR ''/'' # rev path)
      = dropWhile (\<lambda>c. c \<noteq> CHR ''/'') (CHR ''/'' # rev path)"
    by (rule dropWhile_append2) (use True in auto)
  then show ?thesis by (simp add: dirname_def)
next
  case False
  then obtain c where c: "c \<in> set (rev rest)" "\<not> c \<noteq> CHR ''/''" by auto
  have a: "dropWhile (\<lambda>c. c \<noteq> CHR ''/'') (rev rest @ CHR ''/'' # rev path)
      = dropWhile (\<lambda>c. c \<noteq> CHR ''/'') (rev rest) @ CHR ''/'' # rev path"
    using c by simp
  have ne: "dropWhile (\<lambda>c. c \<noteq> CHR ''/'') (rev rest) \<noteq> []"
    using c by (auto simp: dropWhile_eq_Nil_conv)
  then obtain d ds where "dropWhile (\<lambda>c. c \<noteq> CHR ''/'') (rev rest) = d # ds"
    by (cases "dropWhile (\<lambda>c. c \<noteq> CHR ''/'') (rev rest)") auto
  with a show ?thesis by (simp add: dirname_def)
qed

lemma write_to_jsonfile_root:
  assumes "write_to_jsonfile libs fs (os_path_join root_dir ''annotations'') filename data = Inr fs'"
  shows "dirs fs' root_dir = dirs fs root_dir"
proof (cases "fs' = fs")
  case True then show ?thesis by simp
next
  case False
  let ?path = "os_path_join root_dir ''annotations''"
  let ?p = "?path @ ''/'' @ filename @ ''.json''"
  from assms False have w: "open_append_write fs ?p (json_dump libs data) = Inr fs'"
    by (auto simp: write_to_jsonfile_def Let_def split: if_splits)
  obtain s where "dirname (?path @ ''/'' @ (filename @ ''.json'')) = ?path @ s"
    using dirname_extends by blast
  then have "length root_dir < length (dirname ?p)"
    by (simp add: os_path_join_def)
  then have "root_dir \<noteq> dirname ?p" by auto
  with w show ?thesis by (rule open_append_write_dirs)
qed

lemma py_get_error: "py_get xs i = Inl e \<Longrightarrow> e = IndexError"
  by (simp add: py_get_def split: if_splits)

lemma transforms_at_error: "transforms_at trs i = Inl e \<Longrightarrow> e = TypeError \<or> e = IndexError"
  by (auto simp: transforms_at_def split: option.splits dest: py_get_error)

lemma split_step_train:
  "split_step libs n root_dir trs pre shuffle num_imgs_arg kwargs instances (fs, a, b) ''train'' =
    (case map_of instances ''train'' of
       None \<Rightarrow> Inl KeyError
     | Some data \<Rightarrow>
    (case write_to_jsonfile libs fs (os_path_join root_dir ''annotations'') (pre @ ''_'' @ ''train'') data of
       Inl e \<Rightarrow> Inl e
     | Inr fs \<Rightarrow>
    (case transforms_at trs 0 of
       Inl e \<Rightarrow> Inl e
     | Inr tr \<Rightarrow>
    (case plus_init libs fs root_dir ''train'' shuffle num_imgs_arg (Some n) tr
            ((''annotation_prefix'', pre) # kwargs) of
       Inl e \<Rightarrow> Inl e
     | Inr ds \<Rightarrow> Inr (fs, Some ds, b)))))"
  by (simp add: split_step_def startswith_def)

lemma split_step_val:
  "split_step libs n root_dir trs pre shuffle num_imgs_arg kwargs instances (fs, a, b) ''val'' =
    (case map_of instances ''val'' of
       None \<Rightarrow> Inl KeyError
     | Some data \<Rightarrow>
    (case write_to_jsonfile libs fs (os_path_join root_dir ''annotations'') (pre @ ''_'' @ ''val'') data of
       Inl e \<Rightarrow> Inl e
     | Inr fs \<Rightarrow>
    (case transforms_at trs 1 of
       Inl e \<Rightarrow> Inl e
     | Inr tr \<Rightarrow>
    (case plus_init libs fs root_dir ''val'' shuffle num_imgs_arg (Some n) tr
            ((''annotation_prefix'', pre) # kwargs) of
       Inl e \<Rightarrow> Inl e
     | Inr ds \<Rightarrow> Inr (fs, a, Some ds)))))"
  by (simp add: split_step_def startswith_def)

lemma split_step_assertion:
  assumes "split_step libs n root_dir trs pre shuffle num_imgs_arg kwargs instances (fs, a, b) name
             = Inl (AssertionError msg)"
    and "name = ''train'' \<or> name = ''val''"
  shows "msg = ''Invalid path to TI scape dataset annotations''
         \<and> (\<exists>names. dirs fs root_dir = Some names \<and> ''annotations'' \<notin> set names)"
proof -
  from assms obtain data fs1 tr where
    w: "write_to_jsonfile libs fs (os_path_join root_dir ''annotations'') (pre @ ''_'' @ name) data
          = Inr fs1"
    and p: "plus_init libs fs1 root_dir name shuffle num_imgs_arg (Some n) tr
              ((''annotation_prefix'', pre) # kwargs) = Inl (AssertionError msg)"
    by (auto simp: split_step_train split_step_val split: option.splits sum.splits
        dest: write_to_jsonfile_error transforms_at_error)
  from p have "msg = ''Invalid path to TI scape dataset annotations''
         \<and> (\<exists>names. dirs fs1 root_dir = Some names \<and> ''annotations'' \<notin> set names)"
    by (simp add: plus_init_assertion)
  with write_to_jsonfile_root[OF w] show ?thesis by simp
qed

lemma split_step_root:
  assumes "split_step libs n root_dir trs pre shuffle num_imgs_arg kwargs instances (fs, a, b) name
             = Inr (fs', a', b')"
  shows "dirs fs' root_dir = dirs fs root_dir"
  using assms
  by (auto simp: split_step_def split: option.splits sum.splits if_splits
      dest!: write_to_jsonfile_root)

lemma tiscape_segmentation_assertion:
  assumes "tiscape_segmentation libs fs dataset_config root_dir split trs pre shuffle num_imgs_arg kwargs
             = Inl (AssertionError msg)"
  shows "msg = ''Invalid path to TI scape dataset annotations''
         \<and> (\<exists>names. dirs fs root_dir = Some names \<and> ''annotations'' \<notin> set names)"
proof -
  let ?step = "split_step libs (merge_from get_config dataset_config) root_dir trs pre shuffle
                 num_imgs_arg kwargs"
  from assms obtain instances where
    l: "split_loop (?step instances) (fs, None, None) [''train'', ''val''] = Inl (AssertionError msg)"
    by (auto simp: tiscape_segmentation_def Let_def split: option.splits)
  show ?thesis
  proof (cases "?step instances (fs, None, None) ''train''")
    case (Inl e)
    with l have "?step instances (fs, None, None) ''train'' = Inl (AssertionError msg)" by simp
    then show ?thesis by (rule split_step_assertion) simp
  next
    case (Inr st)
    obtain fs1 a1 b1 where st: "st = (fs1, a1, b1)" by (cases st) auto
    from Inr st have r: "dirs fs1 root_dir = dirs fs root_dir" by (auto dest: split_step_root)
    from l Inr st have "?step instances (fs1, a1, b1) ''val'' = Inl (AssertionError msg)"
      by (simp split: sum.splits)
    then have "msg = ''Invalid path to TI scape dataset annotations''
         \<and> (\<exists>names. dirs fs1 root_dir = Some names \<and> ''annotations'' \<notin> set names)"
      by (rule split_step_assertion) simp
    with r show ?thesis by simp
  qed
qed


lemma ex_init_test:
  "init ex_libs ex_fs_test ''r'' ''test'' 0 None (Some 4) [(''annotation_prefix'', ''stuff'')]
     = Inr ex_dataset"
  by (rule ex_init_gen) (simp_all add: ex_fs_test_def ex_fs_def)

lemma ex_plus_init_test:
  "plus_init ex_libs ex_fs_test ''r'' ''test'' 0 None (Some 4) None [(''annotation_prefix'', ''stuff'')]
     = Inr (ex_plus 4)"
  by (rule ex_plus_init_gen) (simp_all add: ex_fs_test_def ex_fs_def)

lemma ex_plus_init_val:
  "plus_init ex_libs ex_fs_after ''r'' ''val'' 0 None (Some 4) None [(''annotation_prefix'', ''stuff'')]
     = Inr (ex_plus 4)"
  by (rule ex_plus_init_gen) (simp_all add: ex_fs_after_def ex_fs_def)

lemma ex_write_train:
  "write_to_jsonfile ex_libs ex_fs ''r/annotations'' ''stuff_train'' ''T'' = Inr ex_fs"
  by (simp add: write_to_jsonfile_def os_path_isfile_def os_access_R_OK_def ex_fs_def)

lemma ex_tiscape_segmentation:
  "tiscape_segmentation ex_libs ex_fs None ''r'' split_arg (Some [None, None]) ''stuff'' 0 None []
     = Inr (ex_fs_after, Some (ex_plus 4), Some (ex_plus 4))"
proof -
  have d: "dataset_split ex_libs ex_fs ''r/annotations/stuff_sorted.json''
      = Some [(''train'', ''T''), (''val'', ''V'')]"
    by (simp add: ex_libs_def ex_fs_def)
  have t: "transforms_at (Some [None, None]) 0 = Inr None" "transforms_at (Some [None, None]) 1 = Inr None"
    by (simp_all add: transforms_at_def py_get_def)
  have j: "os_path_join ''r'' ''annotations'' = ''r/annotations''"
    "os_path_join ''r/annotations'' ''stuff_sorted.json'' = ''r/annotations/stuff_sorted.json''"
    by (simp_all add: os_path_join_def)
  have 1: "split_step ex_libs 4 ''r'' (Some [None, None]) ''stuff'' 0 None []
        [(''train'', ''T''), (''val'', ''V'')] (ex_fs, None, None) ''train''
      = Inr (ex_fs, Some (ex_plus 4), None)"
    using ex_write_train ex_plus_init[of 4] by (simp add: split_step_train j t)
  have 2: "split_step ex_libs 4 ''r'' (Some [None, None]) ''stuff'' 0 None []
        [(''train'', ''T''), (''val'', ''V'')] (ex_fs, Some (ex_plus 4), None) ''val''
      = Inr (ex_fs_after, Some (ex_plus 4), Some (ex_plus 4))"
    using ex_write_val ex_plus_init_val by (simp add: split_step_val j t)
  show ?thesis
    by (simp add: tiscape_segmentation_def merge_from_def get_config_def Let_def j d 1 2)
qed

text \<open>
  Claim C7 as stated, at an input where it fails. The constructors never look at the split
  name beyond building the file name from it, and \<^verbatim>\<open>tiscape_segmentation\<close> overwrites its
  argument \<open>split\<close> (line 219). With the split name \<^verbatim>\<open>test\<close>, which is neither \<^verbatim>\<open>train\<close> nor
  \<^verbatim>\<open>val\<close>, both constructors return a dataset object when the annotation file of that name
  exists, and \<^verbatim>\<open>tiscape_segmentation\<close> returns its two datasets: no assertion fails.
\<close>

theorem construction_assertions_counterexample:
  "''test'' \<noteq> ''train'' \<and> ''test'' \<noteq> ''val''
   \<and> init ex_libs ex_fs_test ''r'' ''test'' 0 None (Some 4) [(''annotation_prefix'', ''stuff'')]
       = Inr ex_dataset
   \<and> plus_init ex_libs ex_fs_test ''r'' ''test'' 0 None (Some 4) None
         [(''annotation_prefix'', ''stuff'')] = Inr (ex_plus 4)
   \<and> tiscape_segmentation ex_libs ex_fs None ''r'' (Some ''test'') (Some [None, None]) ''stuff''
         0 None [] = Inr (ex_fs_after, Some (ex_plus 4), Some (ex_plus 4))"
  by (simp add: ex_init_test ex_plus_init_test ex_tiscape_segmentation)

text \<open>
  Claim C7, amended. Either constructor fails with an assertion exactly when the keyword
  \<^verbatim>\<open>annotation_prefix\<close> is given, the root directory can be listed and its listing lacks
  \<^verbatim>\<open>annotations\<close>; the message is that of line 24, whatever the split name.
  \<^verbatim>\<open>tiscape_segmentation\<close> raises no assertion when the root directory cannot be listed or
  lists \<^verbatim>\<open>annotations\<close>; it never raises \<^verbatim>\<open>unknown split\<close>, and its result does not depend on
  its argument \<open>split\<close>.
\<close>

theorem construction_assertions:
  "(init libs fs root_dir split shuffle num_imgs_arg num_classes kwargs = Inl (AssertionError msg)
      \<longleftrightarrow> msg = ''Invalid path to TI scape dataset annotations''
          \<and> map_of kwargs ''annotation_prefix'' \<noteq> None
          \<and> (\<exists>names. dirs fs root_dir = Some names \<and> ''annotations'' \<notin> set names))
   \<and> (plus_init libs fs root_dir split shuffle num_imgs_arg num_classes tr kwargs
         = Inl (AssertionError msg)
      \<longleftrightarrow> msg = ''Invalid path to TI scape dataset annotations''
          \<and> map_of kwargs ''annotation_prefix'' \<noteq> None
          \<and> (\<exists>names. dirs fs root_dir = Some names \<and> ''annotations'' \<notin> set names))
   \<and> ((\<forall>names. dirs fs root_dir = Some names \<longrightarrow> ''annotations'' \<in> set names) \<longrightarrow>
         tiscape_segmentation libs fs dataset_config root_dir split_arg trs pre shuffle
            num_imgs_arg kwargs \<noteq> Inl (AssertionError msg))
   \<and> tiscape_segmentation libs fs dataset_config root_dir split_arg trs pre shuffle
         num_imgs_arg kwargs \<noteq> Inl (AssertionError ''unknown split'')
   \<and> tiscape_segmentation libs fs dataset_config root_dir split_arg trs pre shuffle
         num_imgs_arg kwargs
       = tiscape_segmentation libs fs dataset_config root_dir None trs pre shuffle
           num_imgs_arg kwargs"
proof (intro conjI impI)
  show "tiscape_segmentation libs fs dataset_config root_dir split_arg trs pre shuffle
            num_imgs_arg kwargs \<noteq> Inl (AssertionError msg)"
    if "\<forall>names. dirs fs root_dir = Some names \<longrightarrow> ''annotations'' \<in> set names"
    using that tiscape_segmentation_assertion[of libs fs dataset_config root_dir split_arg trs pre
        shuffle num_imgs_arg kwargs msg]
    by blast
  show "tiscape_segmentation libs fs dataset_config root_dir split_arg trs pre shuffle
         num_imgs_arg kwargs \<noteq> Inl (AssertionError ''unknown split'')"
    using tiscape_segmentation_assertion[of libs fs dataset_config root_dir split_arg trs pre
        shuffle num_imgs_arg kwargs "''unknown split''"]
    by auto
  show "tiscape_segmentation libs fs dataset_config root_dir split_arg trs pre shuffle
         num_imgs_arg kwargs
       = tiscape_segmentation libs fs dataset_config root_dir None trs pre shuffle
           num_imgs_arg kwargs"
    by (simp add: tiscape_segmentation_def)
qed (rule init_assertion plus_init_assertion)+

theorem construction_assertions_witness:
  "dirs ex_fs_bare ''r'' = Some [''images''] \<and> ''annotations'' \<notin> set [''images'']
   \<and> init ex_libs ex_fs_bare ''r'' ''train'' 0 None (Some 4) [(''annotation_prefix'', ''stuff'')]
       = Inl (AssertionError ''Invalid path to TI scape dataset annotations'')
   \<and> dirs ex_fs ''r'' = Some [''annotations'', ''images'']
   \<and> tiscape_segmentation ex_libs ex_fs None ''r'' (Some ''test'') (Some [None, None]) ''stuff''
         0 None [] \<noteq> Inl (AssertionError ''Invalid path to TI scape dataset annotations'')"
proof -
  note inst = construction_assertions[of ex_libs _ "''r''" "''train''" 0 None "Some 4" _
      "''Invalid path to TI scape dataset annotations''"
      None None "Some ''test''" "Some [None, None]" "''stuff''"]
  have 1: "dirs ex_fs_bare ''r'' = Some [''images'']" by (simp add: ex_fs_bare_def)
  have 2: "''annotations'' \<notin> set [''images'']" by simp
  have 3: "init ex_libs ex_fs_bare ''r'' ''train'' 0 None (Some 4) [(''annotation_prefix'', ''stuff'')]
       = Inl (AssertionError ''Invalid path to TI scape dataset annotations'')"
    using inst[of ex_fs_bare "[(''annotation_prefix'', ''stuff'')]", THEN conjunct1] 1 2 by simp
  have 4: "dirs ex_fs ''r'' = Some [''annotations'', ''images'']" by (simp add: ex_fs_def)
  have 5: "tiscape_segmentation ex_libs ex_fs None ''r'' (Some ''test'') (Some [None, None]) ''stuff''
         0 None [] \<noteq> Inl (AssertionError ''Invalid path to TI scape dataset annotations'')"
    using inst[of ex_fs "[]", THEN conjunct2, THEN conjunct2, THEN conjunct1] 4 by simp
  from 1 2 3 4 5 show ?thesis by (intro conjI)
qed

end
